theory Spec2Isabelle
  imports Main "HOL-Library.AList"
begin

section \<open>Python values\<close>

text \<open>
  The program is one Python 3 script, \<^verbatim>\<open>eaton-epdu.py\<close>. A \<^verbatim>\<open>bytes\<close>
  object is a list of HOL characters (a HOL \<open>char\<close> is one byte). A \<^verbatim>\<open>str\<close> is
  represented by its UTF-8 encoding: \<^verbatim>\<open>encode('utf-8')\<close> is then the identity,
  \<^verbatim>\<open>decode('utf-8')\<close> is the check that the bytes are well-formed UTF-8, equality
  of strs is equality of the encodings, and a byte below 128 occurs in a str only as
  the ASCII character it is. One code point of a str is a lead byte followed by its
  continuation bytes (\<open>10xxxxxx\<close>).
\<close>

type_synonym bytes = "char list"
type_synonym str = "char list"

text \<open>
  Exceptions are values. \<open>Hangs\<close> stands for a polling loop that never ends. The
  \<open>ValueError\<close> of \<^verbatim>\<open>int\<close> carries the str it could not read.
\<close>

datatype error =
    ePDUException str
  | TypeError str
  | ValueError str
  | KeyError str
  | AttributeError str
  | OSError str
  | UnicodeDecodeError
  | Hangs

abbreviation CR :: char where "CR \<equiv> CHR 0x0D"
abbreviation LF :: char where "LF \<equiv> CHR 0x0A"

definition byte_in :: "nat \<Rightarrow> nat \<Rightarrow> char \<Rightarrow> bool" where
  "byte_in lo hi b = (lo \<le> of_char b \<and> of_char b \<le> hi)"

definition is_cont :: "char \<Rightarrow> bool" where
  "is_cont b = byte_in 0x80 0xBF b"

section \<open>The validators\<close>

subsection \<open>The regular expressions of the validators\<close>

text \<open>
  The two patterns of the source, \<^verbatim>\<open>'[A-Z0-9]{10}'\<close> and
  \<^verbatim>\<open>'[0-9]{2}.[0-9]{2}.[0-9]{4}'\<close>, are sequences of items \<open>atom{n}\<close>, where an
  atom is a character class given by its ranges or the dot. The dots of the second
  pattern are not escaped in the source, so they are the regular expression's dot:
  any one code point but a line feed. \<^verbatim>\<open>re.match\<close> anchors at the start of the
  string only.
\<close>

datatype atom = Ranges "(char \<times> char) list" | Dot

type_synonym pattern = "(atom \<times> nat) list"

definition in_ranges :: "(char \<times> char) list \<Rightarrow> char \<Rightarrow> bool" where
  "in_ranges rs c = list_ex (\<lambda>(lo, hi). byte_in (of_char lo) (of_char hi) c) rs"

fun match_atom :: "atom \<Rightarrow> str \<Rightarrow> str option" where
  "match_atom a [] = None"
| "match_atom (Ranges rs) (c # cs) = (if in_ranges rs c then Some cs else None)"
| "match_atom Dot (c # cs) = (if c = LF then None else Some (dropWhile is_cont cs))"

fun match_times :: "atom \<Rightarrow> nat \<Rightarrow> str \<Rightarrow> str option" where
  "match_times a 0 s = Some s"
| "match_times a (Suc n) s =
     (case match_atom a s of None \<Rightarrow> None | Some s' \<Rightarrow> match_times a n s')"

fun match_items :: "pattern \<Rightarrow> str \<Rightarrow> bool" where
  "match_items [] s = True"
| "match_items ((a, n) # items) s =
     (case match_times a n s of None \<Rightarrow> False | Some s' \<Rightarrow> match_items items s')"

text \<open>
  \<open>re_match p v\<close> is \<^verbatim>\<open>bool(re.match(p, v))\<close>. The argument is a str or
  \<^verbatim>\<open>None\<close>; on \<^verbatim>\<open>None\<close> \<^verbatim>\<open>re.match\<close> raises \<^verbatim>\<open>TypeError\<close>.
\<close>

fun re_match :: "pattern \<Rightarrow> str option \<Rightarrow> error + bool" where
  "re_match p None = Inl (TypeError ''expected string or bytes-like object'')"
| "re_match p (Some s) = Inr (match_items p s)"

definition serial_pattern :: pattern where
  "serial_pattern = [(Ranges [(CHR ''A'', CHR ''Z''), (CHR ''0'', CHR ''9'')], 10)]"

definition version_pattern :: pattern where
  "version_pattern =
     [(Ranges [(CHR ''0'', CHR ''9'')], 2), (Dot, 1),
      (Ranges [(CHR ''0'', CHR ''9'')], 2), (Dot, 1),
      (Ranges [(CHR ''0'', CHR ''9'')], 4)]"

subsection \<open>The three validators of class ePDU\<close>

definition supported :: "str list" where
  "supported = [''EILB13'', ''EILB14'', ''EILB15'', ''EMIH28'', ''EMAB04'']"

text \<open>\<^verbatim>\<open>pn in supported\<close> compares with \<^verbatim>\<open>==\<close>; \<^verbatim>\<open>None\<close> equals no str.\<close>

fun is_part_number_ok :: "str option \<Rightarrow> bool" where
  "is_part_number_ok None = False"
| "is_part_number_ok (Some pn) = (if pn \<in> set supported then True else False)"

text \<open>Both regular-expression validators catch the \<^verbatim>\<open>TypeError\<close> and answer False.\<close>

definition is_serial_ok :: "str option \<Rightarrow> bool" where
  "is_serial_ok serial =
     (case re_match serial_pattern serial of Inl e \<Rightarrow> False | Inr m \<Rightarrow> m)"

definition is_version_ok :: "str option \<Rightarrow> bool" where
  "is_version_ok version =
     (case re_match version_pattern version of Inl e \<Rightarrow> False | Inr m \<Rightarrow> m)"

section \<open>Bytes, decoding and conversions\<close>

text \<open>
  \<^verbatim>\<open>bytes.strip(chars)\<close> removes from both ends every byte that occurs in
  \<^verbatim>\<open>chars\<close>, read as a set of bytes (not as a prefix or suffix to match); with
  \<^verbatim>\<open>None\<close> it removes ASCII whitespace.
\<close>

definition ascii_space :: "char \<Rightarrow> bool" where
  "ascii_space c = (c \<in> set [CHR '' '', CHR 0x09, LF, CHR 0x0B, CHR 0x0C, CR])"

definition strip_set :: "bytes option \<Rightarrow> char \<Rightarrow> bool" where
  "strip_set chars b = (case chars of None \<Rightarrow> ascii_space b | Some cs \<Rightarrow> b \<in> set cs)"

definition bytes_strip :: "bytes option \<Rightarrow> bytes \<Rightarrow> bytes" where
  "bytes_strip chars bs =
     rev (dropWhile (strip_set chars) (rev (dropWhile (strip_set chars) bs)))"

text \<open>
  \<^verbatim>\<open>bytes.decode('utf-8')\<close> is strict: it raises \<^verbatim>\<open>UnicodeDecodeError\<close> unless
  the bytes are well-formed UTF-8 (no overlong form, no surrogate, nothing above
  U+10FFFF). The scan keeps what the bytes still to come must be: \<open>None\<close> at a code
  point boundary, \<open>Some (lo, hi, n)\<close> when the next byte must lie in \<open>lo..hi\<close> and
  \<open>n\<close> continuation bytes follow it.
\<close>

definition utf8_lead :: "char \<Rightarrow> (nat \<times> nat \<times> nat) option" where
  "utf8_lead b =
     (if byte_in 0xC2 0xDF b then Some (0x80, 0xBF, 0)
      else if byte_in 0xE0 0xE0 b then Some (0xA0, 0xBF, 1)
      else if byte_in 0xE1 0xEC b then Some (0x80, 0xBF, 1)
      else if byte_in 0xED 0xED b then Some (0x80, 0x9F, 1)
      else if byte_in 0xEE 0xEF b then Some (0x80, 0xBF, 1)
      else if byte_in 0xF0 0xF0 b then Some (0x90, 0xBF, 2)
      else if byte_in 0xF1 0xF3 b then Some (0x80, 0xBF, 2)
      else if byte_in 0xF4 0xF4 b then Some (0x80, 0x8F, 2)
      else None)"

fun utf8_scan :: "(nat \<times> nat \<times> nat) option \<Rightarrow> bytes \<Rightarrow> bool" where
  "utf8_scan None [] = True"
| "utf8_scan (Some st) [] = False"
| "utf8_scan None (b # bs) =
     (if byte_in 0 0x7F b then utf8_scan None bs
      else case utf8_lead b of None \<Rightarrow> False | Some st \<Rightarrow> utf8_scan (Some st) bs)"
| "utf8_scan (Some (lo, hi, n)) (b # bs) =
     (if byte_in lo hi b
      then utf8_scan (if n = 0 then None else Some (0x80, 0xBF, n - 1)) bs
      else False)"

definition decode_utf8 :: "bytes \<Rightarrow> error + str" where
  "decode_utf8 bs = (if utf8_scan None bs then Inr bs else Inl UnicodeDecodeError)"

definition encode_utf8 :: "str \<Rightarrow> bytes" where
  "encode_utf8 s = s"

text \<open>\<^verbatim>\<open>s.replace(c, '')\<close> for a one-character \<^verbatim>\<open>c\<close>.\<close>

definition remove_char :: "char \<Rightarrow> str \<Rightarrow> str" where
  "remove_char c s = filter (\<lambda>x. x \<noteq> c) s"

text \<open>\<^verbatim>\<open>'{}'.format(n)\<close> and \<^verbatim>\<open>str(n)\<close> of an int: its decimal numeral.\<close>

definition digit_char :: "nat \<Rightarrow> char" where
  "digit_char d = char_of (48 + d)"

fun digits_of_nat :: "nat \<Rightarrow> str" where
  "digits_of_nat n =
     (if n < 10 then [digit_char n] else digits_of_nat (n div 10) @ [digit_char (n mod 10)])"

declare digits_of_nat.simps [simp del]

definition str_of_int :: "int \<Rightarrow> str" where
  "str_of_int i = (if i < 0 then CHR ''-'' # digits_of_nat (nat (- i)) else digits_of_nat (nat i))"

subsection \<open>The conversion \<^verbatim>\<open>int(s)\<close> of a str\<close>

text \<open>
  CPython first rewrites a str that is not ASCII: every code point above 127
  becomes a space when the Unicode database calls it whitespace, its ASCII digit when
  it is a decimal digit, and otherwise a question mark that ends the string. The
  database is no part of the repository, so it is a parameter: for the encoding of a
  code point above 127 it gives the replacement character, or \<open>None\<close>. The text
  that results is read as: ASCII whitespace, an optional sign, decimal digits with
  single underscores between them, ASCII whitespace, the end. (In a str that is not
  ASCII, CPython turns the character 127 into the question mark as well; the
  conversion refuses the one like the other. The limit on the number of digits that
  newer interpreters have, 4300, is above what one read of at most 1024 bytes can
  hold and is left out.)
\<close>

type_synonym ucd = "str \<Rightarrow> char option"

function to_ascii :: "ucd \<Rightarrow> str \<Rightarrow> str" where
  "to_ascii u [] = []"
| "to_ascii u (c # cs) =
     (if byte_in 0 0x7F c then c # to_ascii u cs
      else case u (c # takeWhile is_cont cs) of
             None \<Rightarrow> ''?''
           | Some a \<Rightarrow> a # to_ascii u (dropWhile is_cont cs))"
  by pat_completeness auto
termination
  by (relation "measure (\<lambda>(u, s). length s)")
     (auto intro: le_imp_less_Suc length_dropWhile_le)

definition is_digit :: "char \<Rightarrow> bool" where
  "is_digit c = byte_in 48 57 c"

definition digit_value :: "char \<Rightarrow> int" where
  "digit_value c = of_char c - 48"

text \<open>
  The digit loop of the conversion, with the character read last (\<open>prev\<close>) and the
  value so far. It stops at the first character that is neither a digit nor an
  underscore and gives the value and the rest; two underscores in a row or an
  underscore at the end are refused.
\<close>

fun scan_digits :: "char \<Rightarrow> int \<Rightarrow> str \<Rightarrow> (int \<times> str) option" where
  "scan_digits prev acc [] = (if prev = CHR ''_'' then None else Some (acc, []))"
| "scan_digits prev acc (c # cs) =
     (if c = CHR ''_'' then (if prev = CHR ''_'' then None else scan_digits c acc cs)
      else if is_digit c then scan_digits c (10 * acc + digit_value c) cs
      else if prev = CHR ''_'' then None
      else Some (acc, c # cs))"

fun split_sign :: "str \<Rightarrow> bool \<times> str" where
  "split_sign [] = (False, [])"
| "split_sign (c # cs) =
     (if c = CHR ''+'' then (False, cs)
      else if c = CHR ''-'' then (True, cs)
      else (False, c # cs))"

definition py_int :: "ucd \<Rightarrow> str \<Rightarrow> error + int" where
  "py_int u s =
     (case split_sign (dropWhile ascii_space (to_ascii u s)) of
        (neg, body) \<Rightarrow>
          (case body of
             [] \<Rightarrow> Inl (ValueError s)
           | c # cs \<Rightarrow>
               if is_digit c
               then (case scan_digits (CHR 0x00) 0 body of
                       None \<Rightarrow> Inl (ValueError s)
                     | Some (v, rest) \<Rightarrow>
                         if dropWhile ascii_space rest = []
                         then Inr (if neg then - v else v)
                         else Inl (ValueError s))
               else Inl (ValueError s)))"

text \<open>A dict keeps its keys in the order of their first insertion.\<close>

type_synonym dict = "(str \<times> str) list"

definition dict_get :: "dict \<Rightarrow> str \<Rightarrow> error + str" where
  "dict_get d k = (case map_of d k of None \<Rightarrow> Inl (KeyError k) | Some v \<Rightarrow> Inr v)"

definition dict_set :: "str \<Rightarrow> str \<Rightarrow> dict \<Rightarrow> dict" where
  "dict_set k v d = AList.update k v d"

section \<open>The channel\<close>

text \<open>
  The interactive channel of the SSH library, as the script uses it. \<open>sent\<close> is the
  wire: the argument of every \<^verbatim>\<open>send\<close>, in order. \<open>inbuf\<close> holds the bytes that
  have arrived and were not read yet, \<open>arrivals\<close> the chunks the device will still
  deliver, in order. \<^verbatim>\<open>recv_ready()\<close> is true when \<open>inbuf\<close> is not empty, and
  \<^verbatim>\<open>recv(n)\<close> takes at most \<open>n\<close> bytes from it. \<^verbatim>\<open>send\<close> on a channel that
  was closed raises.
\<close>

record channel =
  sent :: "bytes list"
  inbuf :: bytes
  arrivals :: "bytes list"
  closed :: bool

definition chan_send :: "bytes \<Rightarrow> channel \<Rightarrow> error + channel" where
  "chan_send s ch =
     (if closed ch then Inl (OSError ''Socket is closed'')
      else Inr (ch\<lparr>sent := sent ch @ [s]\<rparr>))"

text \<open>
  The loop \<^verbatim>\<open>while channel.recv_ready() is False: sleep(...)\<close>: it ends when
  bytes are buffered, and never when the buffer is empty and nothing will arrive
  (\<open>None\<close>).
\<close>

fun wait_ready :: "bytes \<Rightarrow> bytes list \<Rightarrow> (bytes \<times> bytes list) option" where
  "wait_ready (b # bs) later = Some (b # bs, later)"
| "wait_ready [] [] = None"
| "wait_ready [] (a # later) = wait_ready a later"

definition chan_wait :: "channel \<Rightarrow> channel option" where
  "chan_wait ch =
     (case wait_ready (inbuf ch) (arrivals ch) of
        None \<Rightarrow> None
      | Some (buf, later) \<Rightarrow> Some (ch\<lparr>inbuf := buf, arrivals := later\<rparr>))"

definition chan_recv :: "nat \<Rightarrow> channel \<Rightarrow> bytes \<times> channel" where
  "chan_recv n ch = (take n (inbuf ch), ch\<lparr>inbuf := drop n (inbuf ch)\<rparr>)"

definition chan_close :: "channel \<Rightarrow> channel" where
  "chan_close ch = ch\<lparr>closed := True\<rparr>"

section \<open>Class ePDU\<close>

text \<open>
  The fields of an \<^verbatim>\<open>ePDU\<close> object (without the leading underscore of the
  source), together with \<open>printed\<close>, the lines the process has written with
  \<^verbatim>\<open>print\<close>. \<open>client\<close> is \<^verbatim>\<open>None\<close>, an open client or a closed one. Every
  method takes the state and returns its result, or the exception it raises, with
  the state it leaves.
\<close>

datatype client_state = Client_open | Client_closed

record epdu =
  host :: str
  user :: str
  password :: str
  channel :: "channel option"
  client :: "client_state option"
  logged_in :: bool
  prompt :: "bytes option"
  info :: "dict option"
  printed :: "str list"

definition init :: "str \<Rightarrow> str \<Rightarrow> str \<Rightarrow> str list \<Rightarrow> epdu" where
  "init h u p out =
     \<lparr>host = h, user = u, password = p, channel = None, client = None,
      logged_in = False, prompt = None, info = None, printed = out\<rparr>"

definition print :: "str \<Rightarrow> epdu \<Rightarrow> epdu" where
  "print line w = w\<lparr>printed := printed w @ [line]\<rparr>"

subsection \<open>\<^verbatim>\<open>_send_command\<close>\<close>

text \<open>
  The reply computed from the bytes of one read: strip the bytes of the prompt, then
  the bytes of the command sent, decode, delete carriage returns and line feeds.
\<close>

definition reply_of :: "bytes option \<Rightarrow> bytes \<Rightarrow> bytes \<Rightarrow> error + str" where
  "reply_of prompt_bytes send stdout =
     (case decode_utf8 (bytes_strip (Some send) (bytes_strip prompt_bytes stdout)) of
        Inl e \<Rightarrow> Inl e
      | Inr response \<Rightarrow> Inr (remove_char LF (remove_char CR response)))"

definition send_command :: "str \<Rightarrow> epdu \<Rightarrow> (error + str) \<times> epdu" where
  "send_command cmd w =
     (let send = encode_utf8 (cmd @ [CR]) in
      case channel w of
        None \<Rightarrow> (Inl (AttributeError ''send''), w)
      | Some ch \<Rightarrow>
          (case chan_send send ch of
             Inl e \<Rightarrow> (Inl e, w)
           | Inr ch1 \<Rightarrow>
               (case chan_wait ch1 of
                  None \<Rightarrow> (Inl Hangs, w\<lparr>channel := Some ch1\<rparr>)
                | Some ch2 \<Rightarrow>
                    (case chan_recv 1024 ch2 of
                       (stdout, ch3) \<Rightarrow>
                         (reply_of (prompt w) send stdout, w\<lparr>channel := Some ch3\<rparr>)))))"

subsection \<open>\<^verbatim>\<open>get_object\<close>, \<^verbatim>\<open>set_object\<close> and the outlets\<close>

definition get_object :: "str \<Rightarrow> epdu \<Rightarrow> (error + str) \<times> epdu" where
  "get_object option w = send_command (''get '' @ option) w"

definition set_object :: "str \<Rightarrow> str \<Rightarrow> epdu \<Rightarrow> (error + str) \<times> epdu" where
  "set_object option val w = send_command (''set '' @ option @ '' '' @ val) w"

text \<open>Both methods drop the reply of \<^verbatim>\<open>set_object\<close> and return \<^verbatim>\<open>None\<close>.\<close>

definition turn_on_outlet :: "int \<Rightarrow> epdu \<Rightarrow> (error + unit) \<times> epdu" where
  "turn_on_outlet outlet w =
     (case set_object
             (''PDU.OutletSystem.Outlet['' @ str_of_int outlet @ ''].DelayBeforeStartup'')
             ''0'' w of
        (Inl e, w') \<Rightarrow> (Inl e, w')
      | (Inr r, w') \<Rightarrow> (Inr (), w'))"

definition turn_off_outlet :: "int \<Rightarrow> epdu \<Rightarrow> (error + unit) \<times> epdu" where
  "turn_off_outlet outlet w =
     (case set_object
             (''PDU.OutletSystem.Outlet['' @ str_of_int outlet @ ''].DelayBeforeShutdown'')
             ''0'' w of
        (Inl e, w') \<Rightarrow> (Inl e, w')
      | (Inr r, w') \<Rightarrow> (Inr (), w'))"

subsection \<open>\<^verbatim>\<open>_get_info\<close>\<close>

definition objects :: "str list" where
  "objects =
     [''PDU.PowerSummary.iSerialNumber'',
      ''PDU.PowerSummary.iPartNumber'',
      ''PDU.PowerSummary.iVersion'',
      ''PDU.OutletSystem.Outlet.Count'']"

text \<open>The loop \<^verbatim>\<open>for option in objects: params[option] = self.get_object(option)\<close>.\<close>

fun get_objects :: "str list \<Rightarrow> dict \<Rightarrow> epdu \<Rightarrow> (error + dict) \<times> epdu" where
  "get_objects [] params w = (Inr params, w)"
| "get_objects (option # rest) params w =
     (case get_object option w of
        (Inl e, w') \<Rightarrow> (Inl e, w')
      | (Inr v, w') \<Rightarrow> get_objects rest (dict_set option v params) w')"

text \<open>
  Each \<^verbatim>\<open>raise\<close> of the validations builds its message from
  \<^verbatim>\<open>str(objects[key])\<close>, where \<^verbatim>\<open>objects\<close> is the list of the four paths and
  \<^verbatim>\<open>key\<close> a str. Indexing a list with a str raises \<^verbatim>\<open>TypeError\<close>, and it does
  so while the argument of \<^verbatim>\<open>ePDUException\<close> is evaluated: that is the exception
  which leaves the method.
\<close>

definition list_getitem :: "str list \<Rightarrow> str \<Rightarrow> error + str" where
  "list_getitem xs key = Inl (TypeError ''list indices must be integers or slices, not str'')"

definition validation_error :: "str \<Rightarrow> str \<Rightarrow> error" where
  "validation_error label key =
     (case list_getitem objects key of
        Inl e \<Rightarrow> e
      | Inr v \<Rightarrow> ePDUException (label @ v))"

definition validate :: "dict \<Rightarrow> error + unit" where
  "validate params =
     (case dict_get params ''PDU.PowerSummary.iVersion'' of
        Inl e \<Rightarrow> Inl e
      | Inr version \<Rightarrow>
          if is_version_ok (Some version)
          then (case dict_get params ''PDU.PowerSummary.iSerialNumber'' of
                  Inl e \<Rightarrow> Inl e
                | Inr serial \<Rightarrow>
                    if is_serial_ok (Some serial)
                    then (case dict_get params ''PDU.PowerSummary.iPartNumber'' of
                            Inl e \<Rightarrow> Inl e
                          | Inr pn \<Rightarrow>
                              if is_part_number_ok (Some pn) then Inr ()
                              else Inl (validation_error ''Validation Error: Part Number ''
                                          ''PDU.PowerSummary.iPartNumber''))
                    else Inl (validation_error ''Validation Error: Serial Number ''
                                ''PDU.PowerSummary.iSerialNumber''))
          else Inl (validation_error ''Validation Error: FW version ''
                      ''PDU.PowerSummary.iVersion''))"

definition get_info :: "epdu \<Rightarrow> (error + dict) \<times> epdu" where
  "get_info w =
     (case get_objects objects [] w of
        (Inl e, w') \<Rightarrow> (Inl e, w')
      | (Inr params, w') \<Rightarrow>
          (case validate params of
             Inl e \<Rightarrow> (Inl e, w')
           | Inr u \<Rightarrow> (Inr params, w')))"

subsection \<open>\<^verbatim>\<open>login\<close> and \<^verbatim>\<open>logout\<close>\<close>

text \<open>
  What \<^verbatim>\<open>client.connect\<close> does is the environment's: it connects, and
  \<^verbatim>\<open>invoke_shell\<close> then gives a fresh channel on which the device delivers the
  given chunks, or it raises one of the four exceptions that \<^verbatim>\<open>login\<close> catches.
  Failures of the library that \<^verbatim>\<open>login\<close> does not catch (a refused connection,
  an unreadable host-key file) are not modelled.
\<close>

datatype connect_outcome =
    Connects "bytes list"
  | Socket_timeout
  | Bad_host_key str
  | Authentication_failed
  | SSH_failure str

definition invoke_shell :: "bytes list \<Rightarrow> channel" where
  "invoke_shell chunks = \<lparr>sent = [], inbuf = [], arrivals = chunks, closed = False\<rparr>"

text \<open>
  The three assignments of \<^verbatim>\<open>login\<close> once the channel has data:
  \<^verbatim>\<open>self._client = client\<close>, \<^verbatim>\<open>self._channel = channel\<close>,
  \<^verbatim>\<open>self._prompt = channel.recv(4096)\<close>.
\<close>

definition attach :: "channel \<Rightarrow> epdu \<Rightarrow> epdu" where
  "attach ch w =
     (case chan_recv 4096 ch of
        (p, ch') \<Rightarrow> w\<lparr>client := Some Client_open, channel := Some ch', prompt := Some p\<rparr>)"

definition login :: "connect_outcome \<Rightarrow> epdu \<Rightarrow> (error + bool) \<times> epdu" where
  "login outcome w =
     (case outcome of
        Socket_timeout \<Rightarrow> (Inr False, print (host w @ '' time out'') w)
      | Bad_host_key exc \<Rightarrow>
          (Inr False, print (''Server host key could not be verified: '' @ exc) w)
      | Authentication_failed \<Rightarrow>
          (Inr False, print (''Authentication failed: '' @ host w) w)
      | SSH_failure exc \<Rightarrow>
          (Inr False, print (''Unable to establish SSH connection: '' @ exc) w)
      | Connects chunks \<Rightarrow>
          (case chan_wait (invoke_shell chunks) of
             None \<Rightarrow> (Inl Hangs, w)
           | Some ch \<Rightarrow>
               (case get_info (attach ch w) of
                  (Inl e, w') \<Rightarrow> (Inl e, w')
                | (Inr params, w') \<Rightarrow>
                    (Inr True, w'\<lparr>info := Some params, logged_in := True\<rparr>))))"

definition close_channel :: "epdu \<Rightarrow> (error + unit) \<times> epdu" where
  "close_channel w =
     (case channel w of
        None \<Rightarrow> (Inl (AttributeError ''close''), w)
      | Some ch \<Rightarrow> (Inr (), w\<lparr>channel := Some (chan_close ch)\<rparr>))"

definition close_client :: "epdu \<Rightarrow> (error + unit) \<times> epdu" where
  "close_client w =
     (case client w of
        None \<Rightarrow> (Inl (AttributeError ''close''), w)
      | Some c \<Rightarrow> (Inr (), w\<lparr>client := Some Client_closed\<rparr>))"

definition logout :: "epdu \<Rightarrow> (error + unit) \<times> epdu" where
  "logout w =
     (if logged_in w
      then (case send_command ''quit'' (w\<lparr>logged_in := False\<rparr>) of
              (Inl e, w1) \<Rightarrow> (Inl e, w1)
            | (Inr r, w1) \<Rightarrow>
                (case close_channel w1 of
                   (Inl e, w2) \<Rightarrow> (Inl e, w2)
                 | (Inr u, w2) \<Rightarrow> close_client w2))
      else (Inr (), print ''Not logged in.'' w))"

subsection \<open>\<^verbatim>\<open>number_of_outlets\<close> and \<^verbatim>\<open>show_information\<close>\<close>

definition number_of_outlets :: "ucd \<Rightarrow> epdu \<Rightarrow> error + int" where
  "number_of_outlets u w =
     (case info w of
        None \<Rightarrow> Inl (TypeError ''NoneType object is not subscriptable'')
      | Some d \<Rightarrow>
          (case dict_get d ''PDU.OutletSystem.Outlet.Count'' of
             Inl e \<Rightarrow> Inl e
           | Inr cnt \<Rightarrow> py_int u cnt))"

definition show_information :: "epdu \<Rightarrow> (error + unit) \<times> epdu" where
  "show_information w =
     (case info w of
        None \<Rightarrow> (Inl (TypeError ''NoneType object is not iterable''), w)
      | Some d \<Rightarrow> (Inr (), foldl (\<lambda>w' (key, v). print (key @ '': '' @ v) w') w d))"

section \<open>The command line\<close>

text \<open>
  The parsed arguments; \<open>on\<close> and \<open>off\<close> are \<^verbatim>\<open>None\<close> or the list of the
  numbers given. \<^verbatim>\<open>print('No such outlet: {}', num)\<close> prints its two arguments
  with a space between them.
\<close>

record args =
  address :: str
  username :: str
  passwd :: str
  on :: "int list option"
  off :: "int list option"
  show_info :: bool

definition no_such_outlet :: "int \<Rightarrow> str" where
  "no_such_outlet num = ''No such outlet: {} '' @ str_of_int num"

text \<open>
  The two loops of \<^verbatim>\<open>main\<close> over the numbers to turn on and to turn off differ
  in the method they call only; \<open>switch\<close> is that method. \<^verbatim>\<open>or\<close> does not call
  \<^verbatim>\<open>number_of_outlets\<close> when \<^verbatim>\<open>num < 1\<close>.
\<close>

fun for_outlets ::
  "(int \<Rightarrow> epdu \<Rightarrow> (error + unit) \<times> epdu) \<Rightarrow> ucd \<Rightarrow> int list \<Rightarrow> epdu \<Rightarrow> (error + unit) \<times> epdu"
where
  "for_outlets switch u [] w = (Inr (), w)"
| "for_outlets switch u (num # nums) w =
     (if num < 1 then for_outlets switch u nums (print (no_such_outlet num) w)
      else case number_of_outlets u w of
             Inl e \<Rightarrow> (Inl e, w)
           | Inr n \<Rightarrow>
               if num > n then for_outlets switch u nums (print (no_such_outlet num) w)
               else (case switch num w of
                       (Inl e, w') \<Rightarrow> (Inl e, w')
                     | (Inr r, w') \<Rightarrow> for_outlets switch u nums w'))"

definition truthy :: "int list option \<Rightarrow> bool" where
  "truthy xs = (case xs of None \<Rightarrow> False | Some l \<Rightarrow> l \<noteq> [])"

definition numbers :: "int list option \<Rightarrow> int list" where
  "numbers xs = (case xs of None \<Rightarrow> [] | Some l \<Rightarrow> l)"

text \<open>
  \<^verbatim>\<open>main\<close>: the exit status, or the exception that leaves it, and the state of
  the device object (a fresh one, with what was printed before, when no connection
  is made). The interrupt from the keyboard, which the script catches around
  \<^verbatim>\<open>main\<close>, is not modelled.
\<close>

definition main :: "ucd \<Rightarrow> connect_outcome \<Rightarrow> args \<Rightarrow> str list \<Rightarrow> (error + nat) \<times> epdu" where
  "main u outcome a out =
     (let pdu = init (address a) (username a) (passwd a) out in
      if \<not> truthy (on a) \<and> \<not> truthy (off a) \<and> \<not> show_info a then (Inr 0, pdu)
      else case login outcome pdu of
        (Inl e, w) \<Rightarrow> (Inl e, w)
      | (Inr ok, w) \<Rightarrow>
          if \<not> ok then (Inr 1, w)
          else (case (if show_info a then show_information w else (Inr (), w)) of
                  (Inl e, w1) \<Rightarrow> (Inl e, w1)
                | (Inr r1, w1) \<Rightarrow>
                    (case for_outlets turn_on_outlet u (numbers (on a)) w1 of
                       (Inl e, w2) \<Rightarrow> (Inl e, w2)
                     | (Inr r2, w2) \<Rightarrow>
                         (case for_outlets turn_off_outlet u (numbers (off a)) w2 of
                            (Inl e, w3) \<Rightarrow> (Inl e, w3)
                          | (Inr r3, w3) \<Rightarrow>
                              (case logout w3 of
                                 (Inl e, w4) \<Rightarrow> (Inl e, w4)
                               | (Inr r4, w4) \<Rightarrow> (Inr 0, w4))))))"

section \<open>Observations and a scripted device\<close>

text \<open>What has gone out on the wire of the session: every \<^verbatim>\<open>send\<close>, in order.\<close>

definition wire :: "epdu \<Rightarrow> bytes list" where
  "wire w = (case channel w of None \<Rightarrow> [] | Some ch \<Rightarrow> sent ch)"

definition channel_open :: "epdu \<Rightarrow> bool" where
  "channel_open w = (case channel w of None \<Rightarrow> False | Some ch \<Rightarrow> \<not> closed ch)"

text \<open>
  A scripted device for concrete runs. It shows its prompt when the shell opens and
  answers each command with the echo of the command line, a line break, the payload,
  a line break and the prompt again, each answer in one chunk.
\<close>

definition answer :: "bytes \<Rightarrow> str \<Rightarrow> str \<Rightarrow> bytes" where
  "answer pr cmd payload = cmd @ [CR] @ [CR, LF] @ payload @ [CR, LF] @ pr"

definition device :: "bytes \<Rightarrow> (str \<times> str) list \<Rightarrow> bytes list" where
  "device pr script = pr # map (\<lambda>(cmd, payload). answer pr cmd payload) script"

definition identity_script :: "str \<Rightarrow> str \<Rightarrow> str \<Rightarrow> str \<Rightarrow> (str \<times> str) list" where
  "identity_script serial pn version cnt =
     [(''get PDU.PowerSummary.iSerialNumber'', serial),
      (''get PDU.PowerSummary.iPartNumber'', pn),
      (''get PDU.PowerSummary.iVersion'', version),
      (''get PDU.OutletSystem.Outlet.Count'', cnt)]"

text \<open>The dict that \<^verbatim>\<open>_get_info\<close> builds from the four replies, in the order of the queries.\<close>

definition identity_dict :: "str \<Rightarrow> str \<Rightarrow> str \<Rightarrow> str \<Rightarrow> dict" where
  "identity_dict serial pn version cnt =
     [(''PDU.PowerSummary.iSerialNumber'', serial),
      (''PDU.PowerSummary.iPartNumber'', pn),
      (''PDU.PowerSummary.iVersion'', version),
      (''PDU.OutletSystem.Outlet.Count'', cnt)]"

text \<open>
  An object whose \<^verbatim>\<open>login\<close> has stored client, channel and prompt \<open>pr\<close>, in front
  of the scripted device, which will answer the commands of \<open>script\<close>.
\<close>

definition session :: "bytes \<Rightarrow> (str \<times> str) list \<Rightarrow> epdu" where
  "session pr script =
     (init ''10.0.0.1'' ''admin'' ''admin'' [])
       \<lparr>channel := Some (invoke_shell (map (\<lambda>(cmd, payload). answer pr cmd payload) script)),
        client := Some Client_open, prompt := Some pr\<rparr>"

text \<open>Devices for the concrete runs below: the replies to the four identity queries.\<close>

definition good_device :: "bytes list" where
  "good_device =
     device ''pdu#0>'' (identity_script ''AB12CD34EF'' ''EILB13'' ''01.02.2021'' ''24'')"

definition bad_part :: "bytes list" where
  "bad_part =
     device ''pdu#0>'' (identity_script ''AB12CD34EF'' ''XX99'' ''01.02.2021'' ''24'')"

definition odd_count :: "bytes list" where
  "odd_count =
     device ''pdu#0>'' (identity_script ''AB12CD34EF'' ''EILB13'' ''01.02.2021'' ''abc'')"

definition late_garbage :: "(str \<times> str) list" where
  "late_garbage = identity_script ''AB12CD34EF'' ''EILB13'' ''01.02.2021'' ''24abc''"

definition two_outlets :: epdu where
  "two_outlets =
     (session ''pdu#0>'' [])
       \<lparr>info := Some (identity_dict ''AB12CD34EF'' ''EILB13'' ''01.02.2021'' ''2''),
        logged_in := True\<rparr>"

section \<open>The properties as the specification words them\<close>

text \<open>
  Definitions that follow the wording of the specification, for comparison with the
  definitions above, which follow the source.
\<close>

definition upper_or_digit :: "char \<Rightarrow> bool" where
  "upper_or_digit c = (c \<in> set ''ABCDEFGHIJKLMNOPQRSTUVWXYZ0123456789'')"

definition ascii_digit :: "char \<Rightarrow> bool" where
  "ascii_digit c = (c \<in> set ''0123456789'')"

text \<open>
  A firmware version as the specification has it: two digits, a literal dot, two
  digits, a literal dot, four digits, at the start of the string.
\<close>

definition claimed_version_ok :: "str \<Rightarrow> bool" where
  "claimed_version_ok s =
     (\<exists>a b c r. s = a @ ''.'' @ b @ ''.'' @ c @ r
        \<and> length a = 2 \<and> length b = 2 \<and> length c = 4
        \<and> list_all ascii_digit a \<and> list_all ascii_digit b \<and> list_all ascii_digit c)"

text \<open>
  The wire format of the two outlet commands: \<^verbatim>\<open>set <ObjectPath> <value>\<close> and a
  carriage return, with the value \<^verbatim>\<open>0\<close>.
\<close>

definition on_command :: "int \<Rightarrow> bytes" where
  "on_command n =
     ''set PDU.OutletSystem.Outlet['' @ str_of_int n @ ''].DelayBeforeStartup 0'' @ [CR]"

definition off_command :: "int \<Rightarrow> bytes" where
  "off_command n =
     ''set PDU.OutletSystem.Outlet['' @ str_of_int n @ ''].DelayBeforeShutdown 0'' @ [CR]"

text \<open>The integer a string of decimal digits denotes, most significant digit first.\<close>

definition decimal_value :: "str \<Rightarrow> int" where
  "decimal_value ds = horner_sum digit_value 10 (rev ds)"

text \<open>
  What \<^verbatim>\<open>int\<close> reads, worded as a grammar: whitespace, an optional sign, a
  group of decimal digits, further groups each behind one underscore, whitespace.
  \<open>underscored gs\<close> writes each group of \<open>gs\<close> behind an underscore. A string
  that is not of this form is not a number.
\<close>

definition underscored :: "str list \<Rightarrow> str" where
  "underscored gs = concat (map (\<lambda>x. CHR ''_'' # x) gs)"

definition digit_group :: "str \<Rightarrow> bool" where
  "digit_group g = (g \<noteq> [] \<and> list_all ascii_digit g)"

definition int_literal :: "str \<Rightarrow> bool" where
  "int_literal a =
     (\<exists>lead sg g gs trail.
        a = lead @ sg @ g @ underscored gs @ trail
        \<and> list_all ascii_space lead \<and> list_all ascii_space trail
        \<and> (sg = [] \<or> sg = ''+'' \<or> sg = ''-'')
        \<and> digit_group g \<and> list_all digit_group gs)"

text \<open>
  The number such a literal denotes: its digits, read in base ten, negated when the
  sign is the minus.
\<close>

definition literal_value :: "str \<Rightarrow> int" where
  "literal_value a =
     (if CHR ''-'' \<in> set a then - decimal_value (filter ascii_digit a)
      else decimal_value (filter ascii_digit a))"

text \<open>A str of ASCII characters only, and the characters a literal is made of.\<close>

definition is_ascii :: "str \<Rightarrow> bool" where
  "is_ascii s = list_all (\<lambda>c. (of_char c :: nat) < 128) s"

definition literal_char :: "char \<Rightarrow> bool" where
  "literal_char c = (ascii_space c \<or> ascii_digit c \<or> c \<in> set ''+-_'')"

text \<open>Where the digit loop stops: at the end, or before a character that is neither
  a digit nor an underscore.\<close>

definition stops :: "str \<Rightarrow> bool" where
  "stops r = (case r of [] \<Rightarrow> True | c # cs \<Rightarrow> \<not> is_digit c \<and> c \<noteq> CHR ''_'')"

text \<open>\<open>contains pat bs\<close>: the byte sequence \<open>pat\<close> occurs in \<open>bs\<close>.\<close>

definition contains :: "bytes \<Rightarrow> bytes \<Rightarrow> bool" where
  "contains pat bs = (\<exists>a b. bs = a @ pat @ b)"

section \<open>The validators\<close>

lemma in_ranges_serial:
  "in_ranges [(CHR ''A'', CHR ''Z''), (CHR ''0'', CHR ''9'')] c = upper_or_digit c"
  by (cases c) (simp add: in_ranges_def byte_in_def upper_or_digit_def)

lemma in_ranges_digit:
  "in_ranges [(CHR ''0'', CHR ''9'')] c = ascii_digit c"
  by (cases c) (simp add: in_ranges_def byte_in_def ascii_digit_def)

lemma ascii_digit_not_cont: "ascii_digit c \<Longrightarrow> \<not> is_cont c"
  by (auto simp: ascii_digit_def is_cont_def byte_in_def)

lemma match_times_Ranges:
  "match_times (Ranges rs) n s =
     (if n \<le> length s \<and> list_all (in_ranges rs) (take n s) then Some (drop n s) else None)"
proof (induction n arbitrary: s)
  case 0
  show ?case by simp
next
  case (Suc n)
  show ?case
  proof (cases s)
    case Nil
    then show ?thesis by simp
  next
    case (Cons c cs)
    then show ?thesis using Suc.IH [of cs] by simp
  qed
qed

lemma is_serial_ok_take:
  "is_serial_ok (Some s) = (10 \<le> length s \<and> list_all upper_or_digit (take 10 s))"
proof -
  have "(\<lambda>c. in_ranges [(CHR ''A'', CHR ''Z''), (CHR ''0'', CHR ''9'')] c) = upper_or_digit"
    by (rule ext) (rule in_ranges_serial)
  then show ?thesis
    by (simp add: is_serial_ok_def serial_pattern_def match_times_Ranges)
qed

lemma prefix_of_length:
  "(n \<le> length s \<and> P (take n s)) = (\<exists>p r. s = p @ r \<and> length p = n \<and> P p)"
proof
  assume "n \<le> length s \<and> P (take n s)"
  then have "s = take n s @ drop n s \<and> length (take n s) = n \<and> P (take n s)"
    by simp
  then show "\<exists>p r. s = p @ r \<and> length p = n \<and> P p" by blast
next
  assume "\<exists>p r. s = p @ r \<and> length p = n \<and> P p"
  then obtain p r where "s = p @ r" "length p = n" "P p" by blast
  then show "n \<le> length s \<and> P (take n s)" by simp
qed

text \<open>
  The firmware-version validator on the examples of the specification, and on every
  string the specification's pattern accepts: the code accepts all of those.
\<close>

lemma version_examples:
  "is_version_ok (Some ''01.23.4567'') \<and> \<not> is_version_ok (Some ''abc'')
   \<and> \<not> is_version_ok (Some []) \<and> \<not> is_version_ok None"
  by (simp add: is_version_ok_def version_pattern_def in_ranges_def byte_in_def
      is_cont_def eval_nat_numeral)

lemma claimed_version_accepted:
  assumes "claimed_version_ok s"
  shows "is_version_ok (Some s)"
proof -
  from assms obtain a b c r where s: "s = a @ ''.'' @ b @ ''.'' @ c @ r"
    and l: "length a = 2" "length b = 2" "length c = 4"
    and d: "list_all ascii_digit a" "list_all ascii_digit b" "list_all ascii_digit c"
    unfolding claimed_version_ok_def by blast
  from l(1) obtain a1 a2 where a: "a = [a1, a2]"
    by (auto simp: length_Suc_conv eval_nat_numeral)
  from l(2) obtain b1 b2 where b: "b = [b1, b2]"
    by (auto simp: length_Suc_conv eval_nat_numeral)
  from l(3) obtain c1 c2 c3 c4 where c: "c = [c1, c2, c3, c4]"
    by (auto simp: length_Suc_conv eval_nat_numeral)
  from d a b c show ?thesis
    by (simp add: s is_version_ok_def version_pattern_def eval_nat_numeral in_ranges_digit
        ascii_digit_not_cont)
qed

text \<open>
  C3 (the code departs from the claim). The claim: the firmware-version validator
  accepts a string exactly when it starts with two digits, a literal dot, two digits,
  a literal dot and four digits. The pattern of the source leaves its dots
  unescaped, so the validator accepts \<^verbatim>\<open>01x23y4567\<close>, which has no dot at all.
\<close>

theorem C3_version_dot_matches_any_character:
  "is_version_ok (Some ''01x23y4567'') \<and> \<not> claimed_version_ok ''01x23y4567''"
proof -
  have "is_version_ok (Some ''01x23y4567'')"
    by (simp add: is_version_ok_def version_pattern_def in_ranges_def byte_in_def
        is_cont_def eval_nat_numeral)
  moreover have "\<not> claimed_version_ok ''01x23y4567''"
  proof
    assume "claimed_version_ok ''01x23y4567''"
    then obtain a b c r where s: "''01x23y4567'' = a @ ''.'' @ b @ ''.'' @ c @ r"
      unfolding claimed_version_ok_def by blast
    have "CHR ''.'' \<in> set (a @ ''.'' @ b @ ''.'' @ c @ r)" by simp
    with s have "CHR ''.'' \<in> set ''01x23y4567''" by simp
    then show False by simp
  qed
  ultimately show ?thesis by blast
qed

text \<open>
  C4. For every string \<open>s\<close> the serial-number validator accepts \<open>s\<close> exactly when
  \<open>s\<close> starts with ten characters, each an uppercase letter A-Z or a digit 0-9. It
  accepts \<^verbatim>\<open>AB12CD34EF\<close>, rejects \<^verbatim>\<open>ab12cd34ef\<close> and \<^verbatim>\<open>SHORT\<close>, and answers
  False on \<^verbatim>\<open>None\<close> (the validator returns a truth value, it raises nothing).
\<close>

theorem C4_serial_validator:
  "is_serial_ok (Some s) = (\<exists>p r. s = p @ r \<and> length p = 10 \<and> list_all upper_or_digit p)
   \<and> is_serial_ok (Some ''AB12CD34EF'')
   \<and> \<not> is_serial_ok (Some ''ab12cd34ef'')
   \<and> \<not> is_serial_ok (Some ''SHORT'')
   \<and> \<not> is_serial_ok None"
proof -
  have general:
    "is_serial_ok (Some s) = (\<exists>p r. s = p @ r \<and> length p = 10 \<and> list_all upper_or_digit p)"
    unfolding is_serial_ok_take by (rule prefix_of_length)
  have examples: "is_serial_ok (Some ''AB12CD34EF'')" "\<not> is_serial_ok (Some ''ab12cd34ef'')"
    "\<not> is_serial_ok (Some ''SHORT'')"
    by (simp_all add: is_serial_ok_take upper_or_digit_def)
  have none: "\<not> is_serial_ok None"
    by (simp add: is_serial_ok_def)
  from general examples none show ?thesis by blast
qed

text \<open>
  C5. For every string the part-number validator accepts it if and only if it is
  one of the five codes EILB13, EILB14, EILB15, EMIH28, EMAB04, letter case
  included: the lowercase \<^verbatim>\<open>eilb13\<close> is rejected, and so is \<^verbatim>\<open>None\<close>.
\<close>

theorem C5_part_number_validator:
  "is_part_number_ok (Some pn) =
     (pn = ''EILB13'' \<or> pn = ''EILB14'' \<or> pn = ''EILB15'' \<or> pn = ''EMIH28'' \<or> pn = ''EMAB04'')
   \<and> \<not> is_part_number_ok (Some ''eilb13'')
   \<and> \<not> is_part_number_ok None"
  by (simp add: supported_def)

section \<open>Commands on the channel\<close>

lemma chan_wait_keeps:
  "chan_wait ch = Some ch' \<Longrightarrow> sent ch' = sent ch \<and> closed ch' = closed ch"
  by (auto simp: chan_wait_def split: option.splits)

lemma chan_recv_keeps:
  "chan_recv n ch = (bs, ch') \<Longrightarrow> sent ch' = sent ch \<and> closed ch' = closed ch"
  by (auto simp: chan_recv_def)

text \<open>
  What one command leaves behind on an open channel, whether the device answers or
  not: the command line is on the wire, once, the channel is still open, and no other
  field of the object has changed.
\<close>

lemma send_command_state:
  assumes "channel w = Some ch" and "\<not> closed ch"
  shows "\<exists>ch'. snd (send_command cmd w) = w\<lparr>channel := Some ch'\<rparr>
           \<and> sent ch' = sent ch @ [cmd @ [CR]] \<and> \<not> closed ch'"
proof (cases "chan_wait (ch\<lparr>sent := sent ch @ [cmd @ [CR]]\<rparr>)")
  case None
  with assms have "snd (send_command cmd w)
      = w\<lparr>channel := Some (ch\<lparr>sent := sent ch @ [cmd @ [CR]]\<rparr>)\<rparr>"
    by (simp add: send_command_def chan_send_def encode_utf8_def)
  moreover have "sent (ch\<lparr>sent := sent ch @ [cmd @ [CR]]\<rparr>) = sent ch @ [cmd @ [CR]]
      \<and> \<not> closed (ch\<lparr>sent := sent ch @ [cmd @ [CR]]\<rparr>)"
    using assms by simp
  ultimately show ?thesis by blast
next
  case (Some ch2)
  obtain out ch3 where r: "chan_recv 1024 ch2 = (out, ch3)"
    by (cases "chan_recv 1024 ch2")
  from chan_wait_keeps [OF Some] chan_recv_keeps [OF r] assms
  have "sent ch3 = sent ch @ [cmd @ [CR]] \<and> \<not> closed ch3" by simp
  moreover from assms Some r have "snd (send_command cmd w) = w\<lparr>channel := Some ch3\<rparr>"
    by (simp add: send_command_def chan_send_def encode_utf8_def)
  ultimately show ?thesis by blast
qed

lemma send_command_frame:
  "snd (send_command cmd w) = w \<or> (\<exists>ch'. snd (send_command cmd w) = w\<lparr>channel := Some ch'\<rparr>)"
  by (auto simp: send_command_def Let_def split: option.splits sum.splits prod.splits)

lemma send_command_logged_in:
  "logged_in (snd (send_command cmd w)) = logged_in w"
  using send_command_frame [of cmd w] by auto

lemma wire_after_command:
  assumes "channel w = Some ch" and "\<not> closed ch"
  shows "wire (snd (send_command cmd w)) = sent ch @ [cmd @ [CR]]"
  using send_command_state [OF assms, of cmd] by (auto simp: wire_def)

lemma send_command_keeps:
  assumes "channel w = Some ch" and "\<not> closed ch"
  shows "channel_open (snd (send_command cmd w)) \<and> info (snd (send_command cmd w)) = info w
       \<and> printed (snd (send_command cmd w)) = printed w"
  using send_command_state [OF assms, of cmd] by (auto simp: channel_open_def)

lemma turn_on_outlet_snd:
  "snd (turn_on_outlet n w) =
     snd (send_command
            (''set PDU.OutletSystem.Outlet['' @ str_of_int n @ ''].DelayBeforeStartup 0'') w)"
  by (simp add: turn_on_outlet_def set_object_def split: prod.splits sum.splits)

lemma turn_off_outlet_snd:
  "snd (turn_off_outlet n w) =
     snd (send_command
            (''set PDU.OutletSystem.Outlet['' @ str_of_int n @ ''].DelayBeforeShutdown 0'') w)"
  by (simp add: turn_off_outlet_def set_object_def split: prod.splits sum.splits)

text \<open>
  C1 (the code departs from the claim). The claim: stripping the prompt and the
  echoed command from the raw response removes no byte of the payload, provided the
  payload contains neither the prompt nor the command as a byte sequence. The source
  strips with \<^verbatim>\<open>bytes.strip\<close>, which removes every leading and trailing byte that
  occurs anywhere in its argument. With the prompt CR LF \<^verbatim>\<open>pdu#0>\<close>, the answer to
  the outlet-count query with payload \<^verbatim>\<open>10\<close> comes back as \<^verbatim>\<open>1\<close>: the \<^verbatim>\<open>0\<close>
  is a byte of the prompt, though the payload contains neither the prompt nor the
  command.
\<close>

theorem C1_strip_takes_payload_bytes:
  "fst (send_command ''get PDU.OutletSystem.Outlet.Count''
          (session ([CR, LF] @ ''pdu#0>'') [(''get PDU.OutletSystem.Outlet.Count'', ''10'')]))
     = Inr ''1''
   \<and> \<not> contains ([CR, LF] @ ''pdu#0>'') ''10''
   \<and> \<not> contains (''get PDU.OutletSystem.Outlet.Count'' @ [CR]) ''10''"
proof -
  have run: "fst (send_command ''get PDU.OutletSystem.Outlet.Count''
          (session ([CR, LF] @ ''pdu#0>'') [(''get PDU.OutletSystem.Outlet.Count'', ''10'')]))
     = Inr ''1''"
    by code_simp
  have short: "\<not> contains pat ''10''" if "2 < length pat" for pat
  proof
    assume "contains pat ''10''"
    then obtain a b where "''10'' = a @ pat @ b" unfolding contains_def by blast
    then have "length ''10'' = length (a @ pat @ b)" by (rule arg_cong)
    with that show False by simp
  qed
  from run short [of "[CR, LF] @ ''pdu#0>''"]
    short [of "''get PDU.OutletSystem.Outlet.Count'' @ [CR]"]
  show ?thesis by simp
qed

text \<open>
  C8. For every outlet number \<open>n\<close>, on an open channel \<^verbatim>\<open>turn_on_outlet(n)\<close> puts
  exactly one more line on the wire, \<^verbatim>\<open>set PDU.OutletSystem.Outlet[n].DelayBeforeStartup 0\<close>
  followed by a carriage return, and \<^verbatim>\<open>turn_off_outlet(n)\<close> exactly one,
  \<^verbatim>\<open>set PDU.OutletSystem.Outlet[n].DelayBeforeShutdown 0\<close> followed by a carriage
  return; \<open>n\<close> is written as its decimal numeral.
\<close>

theorem C8_outlet_commands:
  assumes "channel w = Some ch" and "\<not> closed ch"
  shows "wire (snd (turn_on_outlet n w)) = sent ch @ [on_command n]
       \<and> wire (snd (turn_off_outlet n w)) = sent ch @ [off_command n]"
  using wire_after_command [OF assms]
  by (simp add: turn_on_outlet_snd turn_off_outlet_snd on_command_def off_command_def)

theorem C8_outlet_commands_witness:
  "channel (session ''pdu#0>'' []) = Some (invoke_shell [])
   \<and> \<not> closed (invoke_shell [])
   \<and> wire (snd (turn_on_outlet 3 (session ''pdu#0>'' [])))
       = [''set PDU.OutletSystem.Outlet[3].DelayBeforeStartup 0'' @ [CR]]
   \<and> wire (snd (turn_off_outlet 3 (session ''pdu#0>'' [])))
       = [''set PDU.OutletSystem.Outlet[3].DelayBeforeShutdown 0'' @ [CR]]"
proof -
  have h1: "channel (session ''pdu#0>'' []) = Some (invoke_shell [])"
    by (simp add: session_def)
  have h2: "\<not> closed (invoke_shell [])" by (simp add: invoke_shell_def)
  have s: "str_of_int 3 = ''3''" by code_simp
  from C8_outlet_commands [OF h1 h2, of 3] h1 h2 show ?thesis
    by (simp add: invoke_shell_def on_command_def off_command_def s)
qed

section \<open>Logging in and out\<close>

lemma logout_not_logged_in: "\<not> logged_in (snd (logout w))"
proof (cases "logged_in w")
  case False
  then show ?thesis by (simp add: logout_def print_def)
next
  case True
  have "\<not> logged_in (snd (send_command ''quit'' (w\<lparr>logged_in := False\<rparr>)))"
    by (simp add: send_command_logged_in)
  with True show ?thesis
    by (auto simp: logout_def close_channel_def close_client_def
        split: prod.splits sum.splits option.splits)
qed

text \<open>
  C6. \<^verbatim>\<open>logout\<close> on an object that is not logged in raises nothing, prints
  \<^verbatim>\<open>Not logged in.\<close> and leaves channel, client and wire as they were: no
  \<^verbatim>\<open>quit\<close> is sent. After any \<^verbatim>\<open>logout\<close>, however it ended, the object is not
  logged in, so a second \<^verbatim>\<open>logout\<close> right after the first does exactly that.
\<close>

theorem C6_logout_when_not_logged_in:
  "(\<not> logged_in w \<longrightarrow>
      logout w = (Inr (), print ''Not logged in.'' w)
      \<and> channel (print ''Not logged in.'' w) = channel w
      \<and> client (print ''Not logged in.'' w) = client w
      \<and> wire (print ''Not logged in.'' w) = wire w)
   \<and> logout (snd (logout w)) = (Inr (), print ''Not logged in.'' (snd (logout w)))
   \<and> wire (snd (logout (snd (logout w)))) = wire (snd (logout w))"
proof -
  have "\<not> logged_in (snd (logout w))" by (rule logout_not_logged_in)
  then have twice: "logout (snd (logout w)) = (Inr (), print ''Not logged in.'' (snd (logout w)))"
    by (simp add: logout_def)
  then have "wire (snd (logout (snd (logout w)))) = wire (snd (logout w))"
    by (simp add: print_def wire_def)
  with twice show ?thesis by (simp add: logout_def print_def wire_def)
qed

theorem C6_logout_when_not_logged_in_witness:
  "\<not> logged_in (init ''10.0.0.1'' ''admin'' ''admin'' [])
   \<and> logout (init ''10.0.0.1'' ''admin'' ''admin'' [])
       = (Inr (), (init ''10.0.0.1'' ''admin'' ''admin'' [])\<lparr>printed := [''Not logged in.'']\<rparr>)
   \<and> wire (snd (logout (init ''10.0.0.1'' ''admin'' ''admin'' []))) = []"
  using C6_logout_when_not_logged_in [of "init ''10.0.0.1'' ''admin'' ''admin'' []"]
  by (simp add: init_def print_def wire_def)

lemma get_object_state:
  assumes "channel w = Some ch" and "\<not> closed ch"
  shows "\<exists>ch'. snd (get_object opt w) = w\<lparr>channel := Some ch'\<rparr> \<and> \<not> closed ch'"
  using send_command_state [OF assms, of "''get '' @ opt"] by (auto simp: get_object_def)

lemma get_objects_state:
  "channel w = Some ch \<Longrightarrow> \<not> closed ch \<Longrightarrow>
     \<exists>ch'. snd (get_objects opts params w) = w\<lparr>channel := Some ch'\<rparr> \<and> \<not> closed ch'"
proof (induction opts arbitrary: params w ch)
  case Nil
  then have h: "w\<lparr>channel := Some ch\<rparr> = w" by (cases w) simp
  from Nil(2) show ?case by (intro exI [of _ ch]) (simp add: h)
next
  case (Cons opt opts)
  from get_object_state [OF Cons.prems, of opt]
  obtain ch1 where s1: "snd (get_object opt w) = w\<lparr>channel := Some ch1\<rparr>"
    and c1: "\<not> closed ch1"
    by blast
  show ?case
  proof (cases "fst (get_object opt w)")
    case (Inl e)
    with s1 c1 show ?thesis by (cases "get_object opt w") auto
  next
    case (Inr v)
    have "channel (w\<lparr>channel := Some ch1\<rparr>) = Some ch1" by simp
    from Cons.IH [OF this c1, of "dict_set opt v params"]
    obtain ch2 where "snd (get_objects opts (dict_set opt v params) (w\<lparr>channel := Some ch1\<rparr>))
        = w\<lparr>channel := Some ch2\<rparr>" and "\<not> closed ch2"
      by auto
    with Inr s1 show ?thesis by (cases "get_object opt w") auto
  qed
qed

text \<open>The four replies, when all arrive, make a dict of the four keys in query order.\<close>

lemma get_objects_shape:
  assumes "get_objects objects [] w = (Inr params, w')"
  shows "\<exists>serial pn version cnt. params = identity_dict serial pn version cnt"
  using assms
  by (auto simp: objects_def identity_dict_def dict_set_def split: prod.splits sum.splits)

lemma validate_identity:
  "validate (identity_dict serial pn version cnt) =
     (if is_version_ok (Some version)
      then if is_serial_ok (Some serial)
           then if is_part_number_ok (Some pn) then Inr ()
                else Inl (TypeError ''list indices must be integers or slices, not str'')
           else Inl (TypeError ''list indices must be integers or slices, not str'')
      else Inl (TypeError ''list indices must be integers or slices, not str''))"
  by (simp add: validate_def identity_dict_def dict_get_def validation_error_def
      list_getitem_def)

lemma attach_state:
  assumes "chan_wait (invoke_shell chunks) = Some ch"
  shows "\<exists>ch'. channel (attach ch w) = Some ch' \<and> \<not> closed ch'
           \<and> client (attach ch w) = Some Client_open
           \<and> logged_in (attach ch w) = logged_in w"
proof -
  from chan_wait_keeps [OF assms] have "\<not> closed ch" by (simp add: invoke_shell_def)
  then show ?thesis by (simp add: attach_def chan_recv_def)
qed

text \<open>
  C2 (the code departs from the claim). The claim: when a reply fails its validator,
  identity discovery raises the validation error, naming the field and carrying the
  value. In the source the message of each of the three \<^verbatim>\<open>raise\<close> statements
  indexes the list \<^verbatim>\<open>objects\<close> with a str, so a \<^verbatim>\<open>TypeError\<close> leaves
  \<^verbatim>\<open>_get_info\<close> instead: on the part number \<^verbatim>\<open>XX99\<close> \<^verbatim>\<open>login\<close> ends with
  that \<^verbatim>\<open>TypeError\<close>, and no input at all makes the validations raise an
  \<^verbatim>\<open>ePDUException\<close>. (Discovery is aborted all the same.)
\<close>

theorem C2_validation_failure_raises_TypeError:
  "fst (login (Connects bad_part) (init ''10.0.0.1'' ''admin'' ''admin'' []))
     = Inl (TypeError ''list indices must be integers or slices, not str'')
   \<and> (\<forall>params message. validate params \<noteq> Inl (ePDUException message))"
proof -
  have "fst (login (Connects bad_part) (init ''10.0.0.1'' ''admin'' ''admin'' []))
     = Inl (TypeError ''list indices must be integers or slices, not str'')"
    by code_simp
  moreover have "validate params \<noteq> Inl (ePDUException message)" for params message
    by (auto simp: validate_def dict_get_def validation_error_def list_getitem_def
        split: option.splits)
  ultimately show ?thesis by blast
qed

text \<open>
  C9. When \<^verbatim>\<open>login\<close> has connected, read the prompt and received the four
  replies, and a validator then rejects one of them, the exception leaves
  \<^verbatim>\<open>login\<close> with the object not logged in and with client and channel stored and
  open. A \<^verbatim>\<open>logout\<close> after that takes the branch that only prints, so both stay
  open.
\<close>

theorem C9_failed_validation_leaves_session_open:
  assumes "\<not> logged_in w"
    and "chan_wait (invoke_shell chunks) = Some ch"
    and "get_objects objects [] (attach ch w) = (Inr params, w')"
    and "validate params = Inl e"
  shows "login (Connects chunks) w = (Inl e, w')
       \<and> \<not> logged_in w' \<and> client w' = Some Client_open \<and> channel_open w'
       \<and> logout w' = (Inr (), print ''Not logged in.'' w')
       \<and> client (snd (logout w')) = Some Client_open \<and> channel_open (snd (logout w'))"
proof -
  from attach_state [OF assms(2), of w] obtain ch1 where
    a: "channel (attach ch w) = Some ch1" "\<not> closed ch1"
       "client (attach ch w) = Some Client_open" "logged_in (attach ch w) = logged_in w"
    by blast
  from get_objects_state [OF a(1) a(2), of objects "[]"] assms(3)
  obtain ch2 where w': "w' = (attach ch w)\<lparr>channel := Some ch2\<rparr>" and c2: "\<not> closed ch2"
    by auto
  from w' a assms(1) c2
  have props: "\<not> logged_in w'" "client w' = Some Client_open" "channel_open w'"
    by (simp_all add: channel_open_def)
  from assms(2-4) have "login (Connects chunks) w = (Inl e, w')"
    by (simp add: login_def get_info_def)
  moreover from props(1) have "logout w' = (Inr (), print ''Not logged in.'' w')"
    by (simp add: logout_def)
  moreover from this props
  have "client (snd (logout w')) = Some Client_open" "channel_open (snd (logout w'))"
    by (simp_all add: print_def channel_open_def)
  ultimately show ?thesis using props by blast
qed

theorem C9_failed_validation_leaves_session_open_witness:
  "fst (login (Connects bad_part) (init ''10.0.0.1'' ''admin'' ''admin'' []))
     = Inl (TypeError ''list indices must be integers or slices, not str'')
   \<and> \<not> logged_in (snd (login (Connects bad_part) (init ''10.0.0.1'' ''admin'' ''admin'' [])))
   \<and> channel_open (snd (login (Connects bad_part) (init ''10.0.0.1'' ''admin'' ''admin'' [])))
   \<and> channel_open
       (snd (logout (snd (login (Connects bad_part) (init ''10.0.0.1'' ''admin'' ''admin'' [])))))
   \<and> client
       (snd (logout (snd (login (Connects bad_part) (init ''10.0.0.1'' ''admin'' ''admin'' [])))))
       = Some Client_open"
proof -
  let ?w = "init ''10.0.0.1'' ''admin'' ''admin'' []"
  let ?ch = "the (chan_wait (invoke_shell bad_part))"
  let ?params = "identity_dict ''AB12CD34EF'' ''XX99'' ''01.02.2021'' ''24''"
  let ?e = "TypeError ''list indices must be integers or slices, not str''"
  let ?w' = "snd (get_objects objects [] (attach ?ch ?w))"
  have h1: "\<not> logged_in ?w" by (simp add: init_def)
  have h2: "chan_wait (invoke_shell bad_part) = Some ?ch" by code_simp
  have "fst (get_objects objects [] (attach ?ch ?w)) = Inr ?params" by code_simp
  then have h3: "get_objects objects [] (attach ?ch ?w) = (Inr ?params, ?w')"
    by (cases "get_objects objects [] (attach ?ch ?w)") simp
  have h4: "validate ?params = Inl ?e" by code_simp
  note c = C9_failed_validation_leaves_session_open [OF h1 h2 h3 h4]
  from c have l: "login (Connects bad_part) ?w = (Inl ?e, ?w')" by (rule conjunct1)
  from c have rest: "\<not> logged_in ?w' \<and> channel_open ?w' \<and> channel_open (snd (logout ?w'))
      \<and> client (snd (logout ?w')) = Some Client_open" by blast
  show ?thesis unfolding l fst_conv snd_conv using rest by blast
qed

section \<open>The outlet count\<close>

lemma is_digit_ascii_digit: "is_digit c = ascii_digit c"
  by (cases c) (simp add: is_digit_def byte_in_def ascii_digit_def)

lemma is_digit_facts:
  assumes "is_digit c"
  shows "c \<noteq> CHR ''_''" "c \<noteq> CHR ''+''" "c \<noteq> CHR ''-''" "\<not> ascii_space c"
    "byte_in 0 0x7F c"
  using assms
  by (auto simp: is_digit_ascii_digit ascii_digit_def ascii_space_def byte_in_def)

lemma to_ascii_digits: "list_all is_digit ds \<Longrightarrow> to_ascii u ds = ds"
  by (induction ds) (simp_all add: is_digit_facts)

lemma scan_digits_all:
  "list_all is_digit ds \<Longrightarrow> ds \<noteq> [] \<or> prev \<noteq> CHR ''_'' \<Longrightarrow>
     scan_digits prev acc ds = Some (acc * 10 ^ length ds + decimal_value ds, [])"
proof (induction ds arbitrary: prev acc)
  case Nil
  then show ?case by (simp add: decimal_value_def)
next
  case (Cons c cs)
  then have c: "is_digit c" and cs: "list_all is_digit cs" by simp_all
  from Cons.IH [OF cs, of c "10 * acc + digit_value c"] c
  have "scan_digits c (10 * acc + digit_value c) cs
      = Some ((10 * acc + digit_value c) * 10 ^ length cs + decimal_value cs, [])"
    by (simp add: is_digit_facts)
  with c show ?case
    by (simp add: is_digit_facts decimal_value_def horner_sum_append algebra_simps)
qed

text \<open>\<^verbatim>\<open>int\<close> reads a string of decimal digits as the number it denotes.\<close>

lemma py_int_digits:
  assumes "ds \<noteq> []" and "list_all is_digit ds"
  shows "py_int u ds = Inr (decimal_value ds)"
proof -
  from assms obtain c cs where ds: "ds = c # cs" and c: "is_digit c"
    by (cases ds) auto
  from assms(2) have "scan_digits (CHR 0x00) 0 ds = Some (decimal_value ds, [])"
    using scan_digits_all [of ds "CHR 0x00" 0] by simp
  with c ds show ?thesis
    using to_ascii_digits [OF assms(2), of u]
    by (simp add: py_int_def is_digit_facts)
qed

lemma digit_char_value:
  assumes "d < 10"
  shows "is_digit (digit_char d) \<and> digit_value (digit_char d) = int d"
proof -
  have n: "(of_char (char_of (48 + d)) :: nat) = 48 + d"
    using assms by simp
  have "(of_char (char_of (48 + d)) :: int) = int (of_char (char_of (48 + d)))"
    by (simp only: of_nat_of_char)
  with n have "(of_char (char_of (48 + d)) :: int) = 48 + int d" by simp
  with n assms show ?thesis
    by (simp add: is_digit_def byte_in_def digit_char_def digit_value_def)
qed

lemma digits_of_nat_digits:
  "digits_of_nat m \<noteq> [] \<and> list_all is_digit (digits_of_nat m)
     \<and> decimal_value (digits_of_nat m) = int m"
proof (induction m rule: digits_of_nat.induct)
  case (1 n)
  show ?case
  proof (cases "n < 10")
    case True
    then show ?thesis
      by (simp add: digits_of_nat.simps [of n] digit_char_value decimal_value_def)
  next
    case False
    with 1 have ih: "list_all is_digit (digits_of_nat (n div 10))"
      "decimal_value (digits_of_nat (n div 10)) = int (n div 10)" by simp_all
    have d: "is_digit (digit_char (n mod 10))"
      "digit_value (digit_char (n mod 10)) = int (n mod 10)"
      by (simp_all add: digit_char_value)
    from False ih d show ?thesis
      by (simp add: digits_of_nat.simps [of n] decimal_value_def zdiv_int zmod_int)
  qed
qed

text \<open>\<^verbatim>\<open>int(str(n))\<close> is \<open>n\<close>: the numerals the script writes are the ones it reads.\<close>

lemma py_int_str_of_int: "py_int u (str_of_int n) = Inr n"
proof (cases "n < 0")
  case False
  then show ?thesis
    using py_int_digits [of "digits_of_nat (nat n)" u] digits_of_nat_digits [of "nat n"]
    by (simp add: str_of_int_def)
next
  case True
  let ?ds = "digits_of_nat (nat (- n))"
  from digits_of_nat_digits [of "nat (- n)"] have ds: "?ds \<noteq> []" "list_all is_digit ?ds"
    "decimal_value ?ds = int (nat (- n))" by simp_all
  then obtain c cs where cs: "?ds = c # cs" and c: "is_digit c" by (cases ?ds) auto
  have asc: "to_ascii u (CHR ''-'' # ?ds) = CHR ''-'' # ?ds"
    using to_ascii_digits [OF ds(2), of u] by (simp add: byte_in_def)
  have "scan_digits (CHR 0x00) 0 ?ds = Some (decimal_value ?ds, [])"
    using scan_digits_all [OF ds(2), of "CHR 0x00" 0] by simp
  with True asc ds(3) c cs show ?thesis
    by (simp add: py_int_def str_of_int_def ascii_space_def)
qed

lemma py_int_cases: "py_int u s = Inl (ValueError s) \<or> (\<exists>n. py_int u s = Inr n)"
  by (auto simp: py_int_def split: prod.splits list.splits option.splits)

lemma number_of_outlets_print [simp]:
  "number_of_outlets u (print s w) = number_of_outlets u w"
  by (simp add: number_of_outlets_def print_def)

text \<open>The digit loop on digit groups, and the groups behind every scan that ends well.\<close>

lemma foldl_decimal:
  "foldl (\<lambda>a c. 10 * a + digit_value c) acc ds = acc * 10 ^ length ds + decimal_value ds"
proof (induction ds arbitrary: acc)
  case Nil
  show ?case by (simp add: decimal_value_def)
next
  case (Cons c cs)
  have "foldl (\<lambda>a c. 10 * a + digit_value c) (10 * acc + digit_value c) cs
      = (10 * acc + digit_value c) * 10 ^ length cs + decimal_value cs"
    by (rule Cons.IH)
  then show ?case
    by (simp add: decimal_value_def horner_sum_append algebra_simps)
qed

lemma scan_digits_run:
  "list_all is_digit g \<Longrightarrow>
     scan_digits prev acc (g @ r) =
       (if g = [] then scan_digits prev acc r
        else scan_digits (last g) (foldl (\<lambda>a c. 10 * a + digit_value c) acc g) r)"
proof (induction g arbitrary: prev acc)
  case Nil
  show ?case by simp
next
  case (Cons c cs)
  then have c: "is_digit c" and cs: "list_all is_digit cs" by simp_all
  from Cons.IH [OF cs, of c "10 * acc + digit_value c"] c
  show ?case by (simp add: is_digit_facts)
qed

lemma scan_digits_stop:
  assumes "stops r" and "prev \<noteq> CHR ''_''"
  shows "scan_digits prev acc r = Some (acc, r)"
  using assms by (cases r) (simp_all add: stops_def)

lemma last_digit:
  assumes "g \<noteq> []" and "list_all is_digit g"
  shows "last g \<noteq> CHR ''_''"
proof -
  from assms have "is_digit (last g)" by (simp add: list_all_iff)
  then show ?thesis by (rule is_digit_facts)
qed

lemma scan_digits_groups:
  "g \<noteq> [] \<Longrightarrow> list_all is_digit g \<Longrightarrow> list_all (\<lambda>x. x \<noteq> [] \<and> list_all is_digit x) gs \<Longrightarrow> stops r \<Longrightarrow>
     scan_digits prev acc (g @ underscored gs @ r)
       = Some (foldl (\<lambda>a c. 10 * a + digit_value c) acc (g @ concat gs), r)"
proof (induction gs arbitrary: g prev acc)
  case Nil
  then show ?case
    by (simp add: underscored_def scan_digits_run scan_digits_stop last_digit)
next
  case (Cons x xs)
  then have x: "x \<noteq> []" "list_all is_digit x"
    and xs: "list_all (\<lambda>x. x \<noteq> [] \<and> list_all is_digit x) xs" by simp_all
  let ?acc = "foldl (\<lambda>a c. 10 * a + digit_value c) acc g"
  have "scan_digits prev acc (g @ underscored (x # xs) @ r)
      = scan_digits (last g) ?acc (CHR ''_'' # x @ underscored xs @ r)"
    using Cons.prems(1,2) by (simp add: scan_digits_run [of g] underscored_def)
  also have "\<dots> = scan_digits (CHR ''_'') ?acc (x @ underscored xs @ r)"
    using last_digit [OF Cons.prems(1,2)] by simp
  also have "\<dots> = Some (foldl (\<lambda>a c. 10 * a + digit_value c) ?acc (x @ concat xs), r)"
    by (rule Cons.IH [OF x xs Cons.prems(4)])
  finally show ?case by simp
qed

lemma scan_digits_sound:
  "scan_digits prev acc s = Some (v, r) \<Longrightarrow> s \<noteq> [] \<Longrightarrow> is_digit (hd s) \<Longrightarrow>
     \<exists>g gs. s = g @ underscored gs @ r \<and> g \<noteq> [] \<and> list_all is_digit g
        \<and> list_all (\<lambda>x. x \<noteq> [] \<and> list_all is_digit x) gs
        \<and> v = foldl (\<lambda>a c. 10 * a + digit_value c) acc (g @ concat gs)"
proof (induction "length s" arbitrary: s prev acc rule: less_induct)
  case less
  let ?g = "takeWhile is_digit s"
  let ?t = "dropWhile is_digit s"
  let ?acc = "foldl (\<lambda>a c. 10 * a + digit_value c) acc ?g"
  from less.prems(2,3) have g: "?g \<noteq> []" by (cases s) simp_all
  have gd: "list_all is_digit ?g" by (simp add: list_all_iff) (meson set_takeWhileD)
  have s: "s = ?g @ ?t" by simp
  have run: "scan_digits prev acc s = scan_digits (last ?g) ?acc ?t"
    using scan_digits_run [OF gd, of prev acc ?t] g by simp
  have lg: "last ?g \<noteq> CHR ''_''" by (rule last_digit [OF g gd])
  show ?case
  proof (cases ?t)
    case Nil
    with run lg less.prems(1) have "v = ?acc" "r = []" by simp_all
    with g gd s Nil show ?thesis
      by (intro exI [of _ ?g] exI [of _ "[]"]) (simp add: underscored_def)
  next
    case (Cons c cs)
    then have nd: "\<not> is_digit c" using hd_dropWhile [of is_digit s] by simp
    show ?thesis
    proof (cases "c = CHR ''_''")
      case False
      with run lg less.prems(1) Cons nd have "v = ?acc" "r = ?t" by simp_all
      with g gd s show ?thesis
        by (intro exI [of _ ?g] exI [of _ "[]"]) (simp add: underscored_def)
    next
      case True
      with run lg less.prems(1) Cons have sc: "scan_digits (CHR ''_'') ?acc cs = Some (v, r)"
        by simp
      have cs: "cs \<noteq> [] \<and> is_digit (hd cs)"
      proof (cases cs)
        case Nil
        with sc show ?thesis by simp
      next
        case (Cons d ds)
        with sc show ?thesis by (auto split: if_splits)
      qed
      have "length cs < length s"
        using Cons length_dropWhile_le [of is_digit s] by (metis impossible_Cons length_Cons not_less_eq_eq not_le)
      from less.hyps [OF this sc] cs
      obtain g' gs' where r: "cs = g' @ underscored gs' @ r" "g' \<noteq> []" "list_all is_digit g'"
        "list_all (\<lambda>x. x \<noteq> [] \<and> list_all is_digit x) gs'" "v = foldl (\<lambda>a c. 10 * a + digit_value c) ?acc (g' @ concat gs')"
        by blast
      have "s = ?g @ underscored (g' # gs') @ r"
        using s Cons True r(1) by (simp add: underscored_def)
      with g gd r show ?thesis
        by (intro exI [of _ ?g] exI [of _ "g' # gs'"]) simp
    qed
  qed
qed

lemma is_digit_eq: "is_digit = ascii_digit"
  by (rule ext) (rule is_digit_ascii_digit)

lemma digit_group_iff: "digit_group = (\<lambda>x. x \<noteq> [] \<and> list_all is_digit x)"
  by (rule ext) (simp add: digit_group_def is_digit_eq)

lemma space_facts:
  assumes "ascii_space c"
  shows "\<not> ascii_digit c" "c \<noteq> CHR ''-''" "c \<noteq> CHR ''_''" "\<not> is_digit c"
  using assms by (auto simp: ascii_space_def ascii_digit_def is_digit_ascii_digit)

lemma digits_of_spaces:
  "list_all ascii_space xs \<Longrightarrow> filter ascii_digit xs = [] \<and> CHR ''-'' \<notin> set xs"
proof (induction xs)
  case Nil
  show ?case by simp
next
  case (Cons c cs)
  then have "ascii_space c" and "list_all ascii_space cs" by simp_all
  with Cons.IH space_facts(1,2) [of c] show ?case by simp
qed

lemma digits_of_digits:
  "list_all ascii_digit g \<Longrightarrow> filter ascii_digit g = g \<and> CHR ''-'' \<notin> set g"
  by (induction g) (auto simp: ascii_digit_def)

lemma digits_of_underscored:
  "list_all digit_group gs \<Longrightarrow>
     filter ascii_digit (underscored gs) = concat gs \<and> CHR ''-'' \<notin> set (underscored gs)"
proof (induction gs)
  case Nil
  show ?case by (simp add: underscored_def)
next
  case (Cons x xs)
  then have "digit_group x" and xs: "list_all digit_group xs" by simp_all
  then have "list_all ascii_digit x" by (simp add: digit_group_def)
  from digits_of_digits [OF this] Cons.IH [OF xs]
  have "filter ascii_digit (x @ underscored xs) = x @ concat xs"
    "CHR ''-'' \<notin> set (x @ underscored xs)" by simp_all
  moreover have "\<not> ascii_digit (CHR ''_'')" by (simp add: ascii_digit_def)
  moreover have "underscored (x # xs) = CHR ''_'' # x @ underscored xs"
    by (simp add: underscored_def)
  ultimately show ?case by simp
qed

lemma stops_spaces: "list_all ascii_space trail \<Longrightarrow> stops trail"
  by (cases trail) (simp_all add: stops_def space_facts)

lemma literal_value_parts:
  assumes "list_all ascii_space lead" and "list_all ascii_space trail"
    and "sg = [] \<or> sg = ''+'' \<or> sg = ''-''"
    and "digit_group g" and "list_all digit_group gs"
  shows "literal_value (lead @ sg @ g @ underscored gs @ trail)
       = (if sg = ''-'' then - decimal_value (g @ concat gs) else decimal_value (g @ concat gs))"
proof -
  from assms(4) have g: "list_all ascii_digit g" by (simp add: digit_group_def)
  have nd: "\<not> ascii_digit (CHR ''-'')" "\<not> ascii_digit (CHR ''+'')"
    by (simp_all add: ascii_digit_def)
  with assms(3) have sg: "filter ascii_digit sg = []" "(CHR ''-'' \<in> set sg) = (sg = ''-'')"
    by auto
  from digits_of_spaces [OF assms(1)] digits_of_spaces [OF assms(2)] digits_of_digits [OF g]
    digits_of_underscored [OF assms(5)] sg
  show ?thesis by (simp add: literal_value_def nd)
qed

lemma py_int_steps:
  assumes "split_sign (dropWhile ascii_space (to_ascii u s)) = (neg, c # cs)"
    and "is_digit c"
    and "scan_digits (CHR 0x00) 0 (c # cs) = Some (v, rest)"
    and "dropWhile ascii_space rest = []"
  shows "py_int u s = Inr (if neg then - v else v)"
  using assms by (simp add: py_int_def)

lemma py_int_literal:
  assumes "to_ascii u s = lead @ sg @ g @ underscored gs @ trail"
    and "list_all ascii_space lead" and "list_all ascii_space trail"
    and "sg = [] \<or> sg = ''+'' \<or> sg = ''-''"
    and "digit_group g" and "list_all digit_group gs"
  shows "py_int u s = Inr (literal_value (to_ascii u s))"
proof -
  let ?body = "g @ underscored gs @ trail"
  from assms(5) obtain c cs where g: "g = c # cs" and c: "is_digit c"
    and gd: "g \<noteq> []" "list_all is_digit g"
    by (cases g) (auto simp: digit_group_def is_digit_eq)
  from assms(6) have gs: "list_all (\<lambda>x. x \<noteq> [] \<and> list_all is_digit x) gs"
    by (simp add: digit_group_iff)
  have scan: "scan_digits (CHR 0x00) 0 ?body = Some (decimal_value (g @ concat gs), trail)"
    using scan_digits_groups [OF gd gs stops_spaces [OF assms(3)], of "CHR 0x00" 0]
    by (simp add: foldl_decimal)
  have trail: "dropWhile ascii_space trail = []"
    using assms(3) by (simp add: list_all_iff)
  have "\<not> ascii_space c" using c by (rule is_digit_facts)
  moreover have "\<not> ascii_space (CHR ''+'')" "\<not> ascii_space (CHR ''-'')"
    by (simp_all add: ascii_space_def)
  ultimately have first: "\<not> ascii_space (hd (sg @ ?body))"
    using assms(4) g by auto
  have "dropWhile ascii_space (lead @ sg @ ?body) = dropWhile ascii_space (sg @ ?body)"
    using assms(2) by (simp add: dropWhile_append2 list_all_iff)
  also have "\<dots> = sg @ ?body"
    using first g by (cases "sg @ ?body") simp_all
  finally have dw: "dropWhile ascii_space (to_ascii u s) = sg @ ?body"
    by (simp add: assms(1))
  have sign: "split_sign (sg @ ?body) = (sg = ''-'', ?body)"
    using assms(4) c g by (auto simp: is_digit_facts)
  let ?t = "cs @ underscored gs @ trail"
  from dw sign g have 1: "split_sign (dropWhile ascii_space (to_ascii u s)) = (sg = ''-'', c # ?t)"
    by simp
  from scan g have 2: "scan_digits (CHR 0x00) 0 (c # ?t)
      = Some (decimal_value (g @ concat gs), trail)" by simp
  have "py_int u s = Inr (if sg = ''-'' then - decimal_value (g @ concat gs)
                          else decimal_value (g @ concat gs))"
    by (rule py_int_steps [OF 1 c 2 trail])
  with literal_value_parts [OF assms(2-6)] show ?thesis
    by (simp add: assms(1))
qed

lemma split_sign_parts:
  assumes "split_sign t = (neg, body)"
  shows "\<exists>sg. t = sg @ body \<and> (sg = [] \<or> sg = ''+'' \<or> sg = ''-'')"
proof (cases t)
  case Nil
  with assms show ?thesis by simp
next
  case (Cons c cs)
  with assms show ?thesis by (auto split: if_splits)
qed

lemma py_int_number_literal:
  assumes "py_int u s = Inr n"
  shows "int_literal (to_ascii u s)"
proof -
  let ?a = "to_ascii u s"
  obtain neg body where sp: "split_sign (dropWhile ascii_space ?a) = (neg, body)"
    by (cases "split_sign (dropWhile ascii_space ?a)")
  from assms sp obtain c cs v rest where body: "body = c # cs" and c: "is_digit c"
    and scan: "scan_digits (CHR 0x00) 0 body = Some (v, rest)"
    and rest: "dropWhile ascii_space rest = []"
    by (auto simp: py_int_def split: list.splits if_splits option.splits)
  from scan_digits_sound [OF scan] body c
  obtain g gs where b: "body = g @ underscored gs @ rest" and g: "g \<noteq> []" "list_all is_digit g"
    and gs: "list_all (\<lambda>x. x \<noteq> [] \<and> list_all is_digit x) gs"
    by auto
  from split_sign_parts [OF sp] obtain sg where
    t: "dropWhile ascii_space ?a = sg @ body" and sg: "sg = [] \<or> sg = ''+'' \<or> sg = ''-''"
    by blast
  have "?a = takeWhile ascii_space ?a @ dropWhile ascii_space ?a" by simp
  with t b have a: "?a = takeWhile ascii_space ?a @ sg @ g @ underscored gs @ rest" by simp
  have lead: "list_all ascii_space (takeWhile ascii_space ?a)"
    by (simp add: list_all_iff) (meson set_takeWhileD)
  from rest have trail: "list_all ascii_space rest" by (simp add: list_all_iff)
  from g have dg: "digit_group g" by (simp add: digit_group_def is_digit_eq)
  from gs have dgs: "list_all digit_group gs" by (simp add: digit_group_iff)
  from a lead trail sg dg dgs show ?thesis
    unfolding int_literal_def by blast
qed

text \<open>The conversion, in full.\<close>

lemma py_int_iff:
  "py_int u s =
     (if int_literal (to_ascii u s) then Inr (literal_value (to_ascii u s))
      else Inl (ValueError s))"
proof (cases "int_literal (to_ascii u s)")
  case True
  then obtain lead sg g gs trail where
    "to_ascii u s = lead @ sg @ g @ underscored gs @ trail"
    "list_all ascii_space lead" "list_all ascii_space trail"
    "sg = [] \<or> sg = ''+'' \<or> sg = ''-''" "digit_group g" "list_all digit_group gs"
    unfolding int_literal_def by blast
  from py_int_literal [OF this] True show ?thesis by simp
next
  case False
  with py_int_number_literal [of u s] py_int_cases [of u s] show ?thesis by auto
qed

lemma to_ascii_ascii: "list_all (byte_in 0 0x7F) s \<Longrightarrow> to_ascii u s = s"
  by (induction s) simp_all

lemma to_ascii_is_ascii: "is_ascii s \<Longrightarrow> to_ascii u s = s"
  by (induction s) (simp_all add: is_ascii_def byte_in_def)

lemma underscored_chars:
  "list_all digit_group gs \<Longrightarrow> list_all literal_char (underscored gs)"
proof (induction gs)
  case Nil
  show ?case by (simp add: underscored_def)
next
  case (Cons x xs)
  then have "list_all ascii_digit x" and r: "list_all literal_char (underscored xs)"
    by (simp_all add: digit_group_def)
  then have x: "list_all literal_char x"
    by (auto simp: literal_char_def list_all_iff)
  have "literal_char (CHR ''_'')" by (simp add: literal_char_def)
  moreover have "underscored (x # xs) = CHR ''_'' # x @ underscored xs"
    by (simp add: underscored_def)
  ultimately show ?case using x r by simp
qed

text \<open>A literal is made of whitespace, signs, digits and underscores only.\<close>

lemma int_literal_chars:
  assumes "int_literal a"
  shows "list_all literal_char a"
proof -
  from assms obtain lead sg g gs trail where
    a: "a = lead @ sg @ g @ underscored gs @ trail"
    and p: "list_all ascii_space lead" "list_all ascii_space trail"
      "sg = [] \<or> sg = ''+'' \<or> sg = ''-''" "digit_group g" "list_all digit_group gs"
    unfolding int_literal_def by blast
  from p(1,2) have "list_all literal_char lead" "list_all literal_char trail"
    by (simp_all add: literal_char_def list_all_iff)
  moreover from p(3) have "list_all literal_char sg" by (auto simp: literal_char_def)
  moreover from p(4) have "list_all literal_char g"
    by (simp add: digit_group_def literal_char_def list_all_iff)
  moreover note underscored_chars [OF p(5)]
  ultimately show ?thesis by (simp add: a)
qed

lemma digits_literal:
  assumes "ds \<noteq> []" and "list_all ascii_digit ds"
  shows "int_literal ds"
proof -
  have "ds = [] @ [] @ ds @ underscored [] @ []" by (simp add: underscored_def)
  moreover have "list_all ascii_space []" "list_all digit_group []" by simp_all
  moreover from assms have "digit_group ds" by (simp add: digit_group_def)
  ultimately show ?thesis unfolding int_literal_def by blast
qed

text \<open>
  C10. Identity discovery puts no condition on the reply to the outlet-count query:
  when the four replies have arrived and the version, the serial number and the part
  number pass their validators, \<^verbatim>\<open>_get_info\<close> returns the four replies, whatever
  the count reply \<open>cnt\<close> is. On an object that holds them, every call of
  \<^verbatim>\<open>number_of_outlets\<close> is the conversion \<^verbatim>\<open>int(cnt)\<close>. It raises
  \<^verbatim>\<open>ValueError\<close> for every reply that is not a number, that is, not of the form
  whitespace, optional sign, digit groups joined by single underscores, whitespace
  (for a reply outside ASCII: after the interpreter's rewriting of its digits and
  whitespace); so it raises on \<^verbatim>\<open>abc\<close> and on \<^verbatim>\<open>24abc\<close>. For every reply of
  that form it returns the number the reply denotes; in particular the number a
  non-empty string of decimal digits denotes, and \<open>n\<close> when \<open>cnt\<close> is the decimal
  numeral of \<open>n\<close>.
\<close>

theorem C10_outlet_count_not_validated:
  assumes "get_objects objects [] w = (Inr (identity_dict serial pn version cnt), w')"
    and "is_version_ok (Some version)"
    and "is_serial_ok (Some serial)"
    and "is_part_number_ok (Some pn)"
    and "info s = Some (identity_dict serial pn version cnt)"
  shows "get_info w = (Inr (identity_dict serial pn version cnt), w')
       \<and> number_of_outlets u s = py_int u cnt
       \<and> (\<not> int_literal (to_ascii u cnt) \<longrightarrow> number_of_outlets u s = Inl (ValueError cnt))
       \<and> (int_literal (to_ascii u cnt)
            \<longrightarrow> number_of_outlets u s = Inr (literal_value (to_ascii u cnt)))
       \<and> (is_ascii cnt \<and> \<not> int_literal cnt \<longrightarrow> number_of_outlets u s = Inl (ValueError cnt))
       \<and> (is_ascii cnt \<and> int_literal cnt \<longrightarrow> number_of_outlets u s = Inr (literal_value cnt))
       \<and> (cnt \<noteq> [] \<and> list_all ascii_digit cnt
            \<longrightarrow> number_of_outlets u s = Inr (decimal_value cnt))
       \<and> (cnt = str_of_int n \<longrightarrow> number_of_outlets u s = Inr n)"
proof -
  from assms(2-4) have "validate (identity_dict serial pn version cnt) = Inr ()"
    by (simp add: validate_identity)
  with assms(1) have discovery: "get_info w = (Inr (identity_dict serial pn version cnt), w')"
    by (simp add: get_info_def)
  from assms(5) have conv: "number_of_outlets u s = py_int u cnt"
    by (simp add: number_of_outlets_def identity_dict_def dict_get_def)
  have raises: "\<not> int_literal (to_ascii u cnt) \<longrightarrow> number_of_outlets u s = Inl (ValueError cnt)"
    and reads: "int_literal (to_ascii u cnt)
      \<longrightarrow> number_of_outlets u s = Inr (literal_value (to_ascii u cnt))"
    using py_int_iff [of u cnt] conv by simp_all
  have ascii_raises: "is_ascii cnt \<and> \<not> int_literal cnt
      \<longrightarrow> number_of_outlets u s = Inl (ValueError cnt)"
    and ascii_reads: "is_ascii cnt \<and> int_literal cnt
      \<longrightarrow> number_of_outlets u s = Inr (literal_value cnt)"
    using raises reads to_ascii_is_ascii [of cnt u] by auto
  have "(\<lambda>c. is_digit c) = ascii_digit" by (rule ext) (rule is_digit_ascii_digit)
  then have literal:
    "cnt \<noteq> [] \<and> list_all ascii_digit cnt \<longrightarrow> number_of_outlets u s = Inr (decimal_value cnt)"
    using py_int_digits [of cnt u] conv by auto
  have numeral: "cnt = str_of_int n \<longrightarrow> number_of_outlets u s = Inr n"
    using py_int_str_of_int [of u n] conv by auto
  from discovery conv raises reads ascii_raises ascii_reads literal numeral
  show ?thesis by blast
qed

theorem C10_outlet_count_not_validated_witness:
  "fst (get_info
          (session ''pdu#0>'' (identity_script ''AB12CD34EF'' ''EILB13'' ''01.02.2021'' ''abc'')))
       = Inr (identity_dict ''AB12CD34EF'' ''EILB13'' ''01.02.2021'' ''abc'')
   \<and> number_of_outlets (\<lambda>c. None)
         (snd (login (Connects odd_count) (init ''10.0.0.1'' ''admin'' ''admin'' [])))
       = Inl (ValueError ''abc'')
   \<and> number_of_outlets (\<lambda>c. None)
         (snd (login (Connects (device ''pdu#0>'' late_garbage))
                (init ''10.0.0.1'' ''admin'' ''admin'' [])))
       = Inl (ValueError ''24abc'')
   \<and> number_of_outlets (\<lambda>c. None)
         (snd (login (Connects good_device) (init ''10.0.0.1'' ''admin'' ''admin'' [])))
       = Inr 24"
proof -
  let ?u = "\<lambda>c::str. None::char option"
  let ?w = "session ''pdu#0>'' (identity_script ''AB12CD34EF'' ''EILB13'' ''01.02.2021'' ''abc'')"
  let ?wg = "session ''pdu#0>'' late_garbage"
  let ?w24 = "session ''pdu#0>'' (identity_script ''AB12CD34EF'' ''EILB13'' ''01.02.2021'' ''24'')"
  let ?s = "snd (login (Connects odd_count) (init ''10.0.0.1'' ''admin'' ''admin'' []))"
  let ?sg = "snd (login (Connects (device ''pdu#0>'' late_garbage))
                (init ''10.0.0.1'' ''admin'' ''admin'' []))"
  let ?s24 = "snd (login (Connects good_device) (init ''10.0.0.1'' ''admin'' ''admin'' []))"
  let ?d = "identity_dict ''AB12CD34EF'' ''EILB13'' ''01.02.2021''"
  have "fst (get_objects objects [] ?w) = Inr (?d ''abc'')" by code_simp
  then have g: "get_objects objects [] ?w = (Inr (?d ''abc''), snd (get_objects objects [] ?w))"
    by (cases "get_objects objects [] ?w") simp
  have "fst (get_objects objects [] ?wg) = Inr (?d ''24abc'')" by code_simp
  then have gg: "get_objects objects [] ?wg = (Inr (?d ''24abc''), snd (get_objects objects [] ?wg))"
    by (cases "get_objects objects [] ?wg") simp
  have "fst (get_objects objects [] ?w24) = Inr (?d ''24'')" by code_simp
  then have g24:
    "get_objects objects [] ?w24 = (Inr (?d ''24''), snd (get_objects objects [] ?w24))"
    by (cases "get_objects objects [] ?w24") simp
  have v: "is_version_ok (Some ''01.02.2021'')" "is_serial_ok (Some ''AB12CD34EF'')"
    "is_part_number_ok (Some ''EILB13'')" by code_simp+
  have i: "info ?s = Some (?d ''abc'')" "info ?sg = Some (?d ''24abc'')"
    "info ?s24 = Some (?d ''24'')" by code_simp+
  have nl: "\<not> literal_char (CHR ''a'')"
    by (simp add: literal_char_def ascii_space_def ascii_digit_def)
  have p: "is_ascii ''abc'' \<and> \<not> int_literal ''abc''"
    using int_literal_chars [of "''abc''"] nl by (auto simp: is_ascii_def)
  have pg: "is_ascii ''24abc'' \<and> \<not> int_literal ''24abc''"
    using int_literal_chars [of "''24abc''"] nl by (auto simp: is_ascii_def)
  have d24: "list_all ascii_digit ''24''" by (simp add: ascii_digit_def)
  have n24: "is_ascii ''24'' \<and> int_literal ''24''"
    using digits_literal [OF _ d24] by (simp add: is_ascii_def)
  have v24: "literal_value ''24'' = 24"
    by (simp add: literal_value_def ascii_digit_def decimal_value_def digit_value_def)
  note c = C10_outlet_count_not_validated [OF g v i(1), where u = ?u and n = 0]
  note cg = C10_outlet_count_not_validated [OF gg v i(2), where u = ?u and n = 0]
  note c24 = C10_outlet_count_not_validated [OF g24 v i(3), where u = ?u and n = 24]
  from c have "get_info ?w = (Inr (?d ''abc''), snd (get_objects objects [] ?w))"
    by (rule conjunct1)
  then have a: "fst (get_info ?w) = Inr (?d ''abc'')" by simp
  from c p have b: "number_of_outlets ?u ?s = Inl (ValueError ''abc'')" by blast
  from cg pg have bg: "number_of_outlets ?u ?sg = Inl (ValueError ''24abc'')" by blast
  from c24 n24 have "number_of_outlets ?u ?s24 = Inr (literal_value ''24'')" by blast
  then have d: "number_of_outlets ?u ?s24 = Inr 24" by (simp only: v24)
  from a b bg d show ?thesis by blast
qed

section \<open>The loops of the command line\<close>

text \<open>
  C7. Let the outlet count of the logged-in object read as \<open>k\<close>, and let \<open>n\<close> be the
  next number of the on or off list. If \<open>n < 1\<close> or \<open>n > k\<close>, the loop prints the
  warning \<^verbatim>\<open>No such outlet\<close> for \<open>n\<close>, changes nothing on the channel (no
  \<^verbatim>\<open>set\<close> goes out) and goes on with the remaining numbers, the count still
  reading \<open>k\<close>. If \<open>1 \<le> n \<le> k\<close>, which includes \<open>n = 1\<close> and \<open>n = k\<close>, the loop
  calls the switching method for \<open>n\<close>, which puts exactly one \<^verbatim>\<open>set\<close> line for
  \<open>n\<close> on the wire and prints nothing, and goes on with the remaining numbers when
  the method returns; channel and count are as the next round needs them.
\<close>

theorem C7_outlet_range_check:
  assumes "number_of_outlets u w = Inr k" and "channel w = Some ch" and "\<not> closed ch"
  shows "(n < 1 \<or> k < n \<longrightarrow>
            for_outlets switch u (n # ns) w
              = for_outlets switch u ns (print (no_such_outlet n) w)
          \<and> printed (print (no_such_outlet n) w) = printed w @ [no_such_outlet n]
          \<and> channel (print (no_such_outlet n) w) = channel w
          \<and> number_of_outlets u (print (no_such_outlet n) w) = Inr k)
       \<and> (1 \<le> n \<and> n \<le> k \<longrightarrow>
            for_outlets turn_on_outlet u (n # ns) w
              = (case turn_on_outlet n w of
                   (Inl e, w') \<Rightarrow> (Inl e, w')
                 | (Inr r, w') \<Rightarrow> for_outlets turn_on_outlet u ns w')
          \<and> wire (snd (turn_on_outlet n w)) = wire w @ [on_command n]
          \<and> printed (snd (turn_on_outlet n w)) = printed w
          \<and> channel_open (snd (turn_on_outlet n w))
          \<and> number_of_outlets u (snd (turn_on_outlet n w)) = Inr k
          \<and> for_outlets turn_off_outlet u (n # ns) w
              = (case turn_off_outlet n w of
                   (Inl e, w') \<Rightarrow> (Inl e, w')
                 | (Inr r, w') \<Rightarrow> for_outlets turn_off_outlet u ns w')
          \<and> wire (snd (turn_off_outlet n w)) = wire w @ [off_command n]
          \<and> printed (snd (turn_off_outlet n w)) = printed w
          \<and> channel_open (snd (turn_off_outlet n w))
          \<and> number_of_outlets u (snd (turn_off_outlet n w)) = Inr k)"
proof -
  have w: "wire w = sent ch" using assms(2) by (simp add: wire_def)
  have out: "n < 1 \<or> k < n \<Longrightarrow>
      for_outlets switch u (n # ns) w = for_outlets switch u ns (print (no_such_outlet n) w)"
    using assms(1) by auto
  have pr: "printed (print (no_such_outlet n) w) = printed w @ [no_such_outlet n]"
      "channel (print (no_such_outlet n) w) = channel w"
    by (simp_all add: print_def)
  have pn: "number_of_outlets u (print (no_such_outlet n) w) = Inr k"
    using assms(1) by simp
  have inr: "1 \<le> n \<and> n \<le> k \<Longrightarrow>
      for_outlets sw u (n # ns) w
        = (case sw n w of
             (Inl e, w') \<Rightarrow> (Inl e, w')
           | (Inr r, w') \<Rightarrow> for_outlets sw u ns w')" for sw
    using assms(1) by auto
  from wire_after_command [OF assms(2,3)] w
  have sends: "wire (snd (turn_on_outlet n w)) = wire w @ [on_command n]"
    "wire (snd (turn_off_outlet n w)) = wire w @ [off_command n]"
    by (simp_all add: turn_on_outlet_snd turn_off_outlet_snd on_command_def off_command_def)
  from send_command_keeps [OF assms(2,3)] assms(1)
  have keeps: "printed (snd (turn_on_outlet n w)) = printed w"
    "channel_open (snd (turn_on_outlet n w))"
    "number_of_outlets u (snd (turn_on_outlet n w)) = Inr k"
    "printed (snd (turn_off_outlet n w)) = printed w"
    "channel_open (snd (turn_off_outlet n w))"
    "number_of_outlets u (snd (turn_off_outlet n w)) = Inr k"
    by (simp_all add: turn_on_outlet_snd turn_off_outlet_snd number_of_outlets_def)
  from out pr pn inr [of turn_on_outlet] inr [of turn_off_outlet] sends keeps
  show ?thesis by blast
qed

theorem C7_outlet_range_check_witness:
  "number_of_outlets (\<lambda>c. None) two_outlets = Inr 2
   \<and> channel two_outlets = Some (invoke_shell [])
   \<and> \<not> closed (invoke_shell [])
   \<and> for_outlets turn_on_outlet (\<lambda>c. None) [0, 2] two_outlets
       = for_outlets turn_on_outlet (\<lambda>c. None) [2] (print ''No such outlet: {} 0'' two_outlets)
   \<and> for_outlets turn_off_outlet (\<lambda>c. None) [3] two_outlets
       = (Inr (), print ''No such outlet: {} 3'' two_outlets)
   \<and> wire (print ''No such outlet: {} 3'' two_outlets) = []
   \<and> wire (snd (turn_on_outlet 1 two_outlets))
       = [''set PDU.OutletSystem.Outlet[1].DelayBeforeStartup 0'' @ [CR]]
   \<and> wire (snd (turn_off_outlet 2 two_outlets))
       = [''set PDU.OutletSystem.Outlet[2].DelayBeforeShutdown 0'' @ [CR]]"
proof -
  let ?u = "\<lambda>c::str. None::char option"
  have h1: "number_of_outlets ?u two_outlets = Inr 2" by code_simp
  have h2: "channel two_outlets = Some (invoke_shell [])"
    by (simp add: two_outlets_def session_def)
  have h3: "\<not> closed (invoke_shell [])" by (simp add: invoke_shell_def)
  have w: "wire two_outlets = []" by (simp add: wire_def h2 invoke_shell_def)
  have s: "no_such_outlet 0 = ''No such outlet: {} 0''"
    "no_such_outlet 3 = ''No such outlet: {} 3''"
    "on_command 1 = ''set PDU.OutletSystem.Outlet[1].DelayBeforeStartup 0'' @ [CR]"
    "off_command 2 = ''set PDU.OutletSystem.Outlet[2].DelayBeforeShutdown 0'' @ [CR]"
    by code_simp+
  note c = C7_outlet_range_check [OF h1 h2 h3]
  from c [of 0 turn_on_outlet "[2]"]
  have a: "for_outlets turn_on_outlet ?u [0, 2] two_outlets
       = for_outlets turn_on_outlet ?u [2] (print ''No such outlet: {} 0'' two_outlets)"
    by (simp add: s)
  from c [of 3 turn_off_outlet "[]"]
  have b: "for_outlets turn_off_outlet ?u [3] two_outlets
       = (Inr (), print ''No such outlet: {} 3'' two_outlets)"
    by (simp add: s)
  from w have b': "wire (print ''No such outlet: {} 3'' two_outlets) = []"
    by (simp add: wire_def print_def)
  from c [of 1] have d: "wire (snd (turn_on_outlet 1 two_outlets))
       = [''set PDU.OutletSystem.Outlet[1].DelayBeforeStartup 0'' @ [CR]]"
    by (simp add: s w)
  from c [of 2] have e: "wire (snd (turn_off_outlet 2 two_outlets))
       = [''set PDU.OutletSystem.Outlet[2].DelayBeforeShutdown 0'' @ [CR]]"
    by (simp add: s w)
  from h1 h2 h3 a b b' d e show ?thesis by blast
qed

end
